theory Spec2Isabelle
  imports Complex_Main "HOL-Library.AList"
begin

section \<open>The Hailo8 installation orchestrator (hailo8\_installer/installer.py)\<close>

text \<open>
  The theory embeds the orchestrator of \<^verbatim>\<open>installer.py\<close>: the component records, the
  command runner, the state file (\<^verbatim>\<open>_save_state\<close>, \<^verbatim>\<open>_load_state\<close>), the retry wrapper,
  \<^verbatim>\<open>install_all\<close>, the repair functions and \<^verbatim>\<open>rollback_installation\<close>.
  Python's mutation of \<^verbatim>\<open>self\<close> is explicit state passing; what lies outside the process
  (child processes, the clock, the six stage functions bound in \<^verbatim>\<open>install_steps\<close>) is an
  environment that reads and changes an abstract world \<open>'w\<close>.

  Left out: the logger (its calls change nothing the orchestrator reads), the creation of
  the directories and the logging set-up in the constructor, a state file that cannot be
  opened for writing, and exceptions that are not subclasses of \<^verbatim>\<open>Exception\<close> (a keyboard
  interrupt), which no \<^verbatim>\<open>except Exception\<close> clause of the source catches.
\<close>

subsection \<open>Data model\<close>

datatype InstallStatus = PENDING | RUNNING | SUCCESS | FAILED | ROLLBACK | RECOVERED

datatype ComponentType =
  SYSTEM_CHECK | DEPENDENCIES | PCIE_DRIVER | HAILORT | DOCKER_CONFIG | VALIDATION

text \<open>The \<^verbatim>\<open>.value\<close> of each enum member, and the lookup \<^verbatim>\<open>InstallStatus(v)\<close> /
  \<^verbatim>\<open>ComponentType(v)\<close> by value (\<open>None\<close> where Python raises ValueError).\<close>

fun status_value :: "InstallStatus \<Rightarrow> string" where
  "status_value PENDING = ''pending''"
| "status_value RUNNING = ''running''"
| "status_value SUCCESS = ''success''"
| "status_value FAILED = ''failed''"
| "status_value ROLLBACK = ''rollback''"
| "status_value RECOVERED = ''recovered''"

fun type_value :: "ComponentType \<Rightarrow> string" where
  "type_value SYSTEM_CHECK = ''system_check''"
| "type_value DEPENDENCIES = ''dependencies''"
| "type_value PCIE_DRIVER = ''pcie_driver''"
| "type_value HAILORT = ''hailort''"
| "type_value DOCKER_CONFIG = ''docker_config''"
| "type_value VALIDATION = ''validation''"

definition InstallStatus_of_value :: "string \<Rightarrow> InstallStatus option" where
  "InstallStatus_of_value v =
     List.find (\<lambda>m. status_value m = v) [PENDING, RUNNING, SUCCESS, FAILED, ROLLBACK, RECOVERED]"

definition ComponentType_of_value :: "string \<Rightarrow> ComponentType option" where
  "ComponentType_of_value v =
     List.find (\<lambda>m. type_value m = v)
       [SYSTEM_CHECK, DEPENDENCIES, PCIE_DRIVER, HAILORT, DOCKER_CONFIG, VALIDATION]"

text \<open>
  Python values as far as the state document needs them. A member of \<^verbatim>\<open>ComponentType\<close> or
  \<^verbatim>\<open>InstallStatus\<close> is a value of its own: both classes derive from plain \<^verbatim>\<open>Enum\<close>, so a
  member is neither a \<^verbatim>\<open>str\<close> nor an \<^verbatim>\<open>int\<close>.
\<close>

datatype pyval =
    PyNone
  | PyBool bool
  | PyInt int
  | PyFloat real
  | PyStr string
  | PyList "pyval list"
  | PyDict "(string \<times> pyval) list"
  | PyComponentType ComponentType
  | PyInstallStatus InstallStatus

text \<open>The dataclass \<^verbatim>\<open>InstallComponent\<close>; \<^verbatim>\<open>rollback_data\<close> defaults to \<^verbatim>\<open>None\<close>,
  \<^verbatim>\<open>retry_count\<close> to 0 and \<^verbatim>\<open>max_retries\<close> to 3.\<close>

record InstallComponent =
  name :: string
  type :: ComponentType
  status :: InstallStatus
  version :: string
  error_msg :: string
  rollback_data :: pyval
  retry_count :: int
  max_retries :: int

definition new_component :: "string \<Rightarrow> ComponentType \<Rightarrow> InstallStatus \<Rightarrow> InstallComponent" where
  "new_component n t st =
     \<lparr>name = n, type = t, status = st, version = '''', error_msg = '''',
      rollback_data = PyNone, retry_count = 0, max_retries = 3\<rparr>"

text \<open>A Python \<^verbatim>\<open>dict\<close> keeps its keys in insertion order, and assigning to a key it already
  has keeps the key's place: an association list with \<^const>\<open>AList.update\<close>.\<close>

type_synonym components = "(string \<times> InstallComponent) list"

text \<open>The display names are Chinese text in the source; they are given here by their
  UTF-8 bytes.\<close>

definition initialize_components :: components where
  "initialize_components =
    [(''system_check'', new_component
        [CHR 0xE7, CHR 0xB3, CHR 0xBB, CHR 0xE7, CHR 0xBB, CHR 0x9F, CHR 0xE7, CHR 0x8E, CHR 0xAF,
         CHR 0xE5, CHR 0xA2, CHR 0x83, CHR 0xE6, CHR 0xA3, CHR 0x80, CHR 0xE6, CHR 0x9F, CHR 0xA5]
        SYSTEM_CHECK PENDING),
     (''dependencies'', new_component
        [CHR 0xE7, CHR 0xB3, CHR 0xBB, CHR 0xE7, CHR 0xBB, CHR 0x9F, CHR 0xE4, CHR 0xBE, CHR 0x9D,
         CHR 0xE8, CHR 0xB5, CHR 0x96, CHR 0xE5, CHR 0xAE, CHR 0x89, CHR 0xE8, CHR 0xA3, CHR 0x85]
        DEPENDENCIES PENDING),
     (''pcie_driver'', new_component
        [CHR 0x50, CHR 0x43, CHR 0x49, CHR 0x65, CHR 0xE9, CHR 0xA9, CHR 0xB1, CHR 0xE5, CHR 0x8A,
         CHR 0xA8, CHR 0xE5, CHR 0xAE, CHR 0x89, CHR 0xE8, CHR 0xA3, CHR 0x85]
        PCIE_DRIVER PENDING),
     (''hailort'', new_component
        [CHR 0x48, CHR 0x61, CHR 0x69, CHR 0x6C, CHR 0x6F, CHR 0x52, CHR 0x54, CHR 0xE8, CHR 0xBF,
         CHR 0x90, CHR 0xE8, CHR 0xA1, CHR 0x8C, CHR 0xE6, CHR 0x97, CHR 0xB6, CHR 0xE5, CHR 0xAE,
         CHR 0x89, CHR 0xE8, CHR 0xA3, CHR 0x85]
        HAILORT PENDING),
     (''docker_config'', new_component
        [CHR 0x44, CHR 0x6F, CHR 0x63, CHR 0x6B, CHR 0x65, CHR 0x72, CHR 0xE9, CHR 0x85, CHR 0x8D,
         CHR 0xE7, CHR 0xBD, CHR 0xAE]
        DOCKER_CONFIG PENDING),
     (''validation'', new_component
        [CHR 0xE5, CHR 0xAE, CHR 0x89, CHR 0xE8, CHR 0xA3, CHR 0x85, CHR 0xE9, CHR 0xAA, CHR 0x8C,
         CHR 0xE8, CHR 0xAF, CHR 0x81]
        VALIDATION PENDING)]"

subsection \<open>The environment and the orchestrator's state\<close>

text \<open>
  What \<^verbatim>\<open>subprocess.run(command, capture_output=..., text=True, timeout=..., check=False)\<close>
  can do: return a completed process (return code, stdout, stderr), raise
  \<^verbatim>\<open>TimeoutExpired\<close>, or raise another exception (the command cannot be spawned, its output
  cannot be decoded), of which only the text \<^verbatim>\<open>str(e)\<close> is used.
\<close>

datatype proc_result =
    CompletedProcess int string string
  | TimeoutExpired
  | OtherException string

text \<open>A call that returns a value or raises an exception (kept as its text \<^verbatim>\<open>str(e)\<close>).\<close>

datatype 'a result = Returns 'a | Raises string

text \<open>
  The environment: \<open>subprocess_run command timeout capture_output\<close> runs a child process,
  \<open>install_func name\<close> is the stage function that \<^verbatim>\<open>install_steps\<close> binds to the component
  \<open>name\<close> (\<^verbatim>\<open>check_system_environment\<close>, \<^verbatim>\<open>install_dependencies\<close>, \<^verbatim>\<open>install_pcie_driver\<close>,
  \<^verbatim>\<open>install_hailort\<close>, \<^verbatim>\<open>configure_docker\<close>, \<^verbatim>\<open>validate_installation\<close>), and \<open>time_time\<close> is the
  clock.
\<close>

record 'w env =
  subprocess_run :: "string list \<Rightarrow> int \<Rightarrow> bool \<Rightarrow> 'w \<Rightarrow> proc_result \<times> 'w"
  install_func :: "string \<Rightarrow> 'w \<Rightarrow> bool result \<times> 'w"
  time_time :: "'w \<Rightarrow> real"

text \<open>
  A file on disk holds a complete JSON document, identified with the value it parses to,
  or a text that breaks off inside a document, which \<^verbatim>\<open>json.load\<close> rejects.
\<close>

datatype file_content = Document pyval | Truncated

text \<open>Calls of the stage and repair functions, in the order they are made.\<close>

datatype call = Install string | Repair string


text \<open>
  The state of a run: the fields of the \<^verbatim>\<open>Hailo8Installer\<close> object that the orchestrator
  uses (\<open>install_dir\<close>, \<open>components\<close>), the files on disk by path, the world outside, and
  four logs kept for stating properties: the stage and repair functions called, the
  commands handed to \<^verbatim>\<open>_execute_command\<close>, the components for which \<^verbatim>\<open>install_all\<close>
  has logged that the repair succeeded, and, for every call of a stage function, the
  component it belongs to together with the status of every component and the log of
  repairs at the moment of the call.
\<close>

type_synonym invocation = "string \<times> (string \<times> InstallStatus) list \<times> string list"

record 'w installer =
  install_dir :: string
  components :: components
  files :: "string \<Rightarrow> file_content option"
  world :: 'w
  calls :: "call list"
  commands :: "string list list"
  repaired :: "string list"
  invocations :: "invocation list"

text \<open>The status of every component, by name.\<close>

definition statuses :: "'w installer \<Rightarrow> (string \<times> InstallStatus) list" where
  "statuses s = map (\<lambda>(n, c). (n, status c)) (components s)"

definition state_file :: "'w installer \<Rightarrow> string" where
  "state_file s = install_dir s @ ''/install_state.json''"

subsection \<open>The command runner\<close>

definition timeout_message :: string where
  "timeout_message =
     [CHR 0xE5, CHR 0x91, CHR 0xBD, CHR 0xE4, CHR 0xBB, CHR 0xA4, CHR 0xE6, CHR 0x89, CHR 0xA7,
      CHR 0xE8, CHR 0xA1, CHR 0x8C, CHR 0xE8, CHR 0xB6, CHR 0x85, CHR 0xE6, CHR 0x97, CHR 0xB6]"

text \<open>
  What \<^verbatim>\<open>_execute_command\<close> and \<^verbatim>\<open>DockerHailo8Manager.run_command\<close> return for each outcome
  of \<^verbatim>\<open>subprocess.run\<close>: the \<^verbatim>\<open>try\<close> body for a completed process, the two \<^verbatim>\<open>except\<close>
  clauses otherwise. No branch re-raises.
\<close>

fun command_result :: "bool \<Rightarrow> proc_result \<Rightarrow> bool \<times> string \<times> string" where
  "command_result capture_output (CompletedProcess returncode out err) =
     (returncode = 0, if capture_output then out else '''', if capture_output then err else '''')"
| "command_result capture_output TimeoutExpired = (False, '''', timeout_message)"
| "command_result capture_output (OtherException e) = (False, '''', e)"

definition execute_command ::
  "'w env \<Rightarrow> string list \<Rightarrow> int \<Rightarrow> bool \<Rightarrow> 'w installer \<Rightarrow> (bool \<times> string \<times> string) \<times> 'w installer"
where
  "execute_command env command timeout capture_output s =
     (case subprocess_run env command timeout capture_output (world s) of
        (r, w) \<Rightarrow>
          (command_result capture_output r, s\<lparr>world := w, commands := commands s @ [command]\<rparr>))"

text \<open>\<^verbatim>\<open>DockerHailo8Manager.run_command\<close> (docker\_manager.py) always captures the output.\<close>

definition run_command ::
  "'w env \<Rightarrow> string list \<Rightarrow> int \<Rightarrow> 'w \<Rightarrow> (bool \<times> string \<times> string) \<times> 'w"
where
  "run_command env command timeout w =
     (case subprocess_run env command timeout True w of (r, w') \<Rightarrow> (command_result True r, w'))"

text \<open>The call \<^verbatim>\<open>self._execute_command(command)\<close> with the default timeout of 300 seconds
  and captured output, for the call sites that drop its result.\<close>

definition issue :: "'w env \<Rightarrow> string list \<Rightarrow> 'w installer \<Rightarrow> 'w installer" where
  "issue env command s = snd (execute_command env command 300 True s)"

subsection \<open>The state file\<close>

text \<open>\<^verbatim>\<open>dataclasses.asdict\<close>: the fields by name, in declaration order. The two enum fields
  stay enum members (\<^verbatim>\<open>asdict\<close> copies what is not a dataclass, list, tuple or dict).\<close>

definition asdict :: "InstallComponent \<Rightarrow> pyval" where
  "asdict c =
     PyDict [(''name'', PyStr (name c)), (''type'', PyComponentType (type c)),
             (''status'', PyInstallStatus (status c)), (''version'', PyStr (version c)),
             (''error_msg'', PyStr (error_msg c)), (''rollback_data'', rollback_data c),
             (''retry_count'', PyInt (retry_count c)), (''max_retries'', PyInt (max_retries c))]"

text \<open>
  What \<^verbatim>\<open>json.dump\<close> encodes when it is given no \<^verbatim>\<open>default\<close> function: \<^verbatim>\<open>None\<close>, booleans,
  numbers, strings, lists and dicts of such values. For anything else, a member of a plain
  \<^verbatim>\<open>Enum\<close> included, the encoder raises TypeError.
\<close>

fun json_serializable :: "pyval \<Rightarrow> bool" where
  "json_serializable (PyList vs) = list_all json_serializable vs"
| "json_serializable (PyDict kvs) = list_all json_serializable (map snd kvs)"
| "json_serializable (PyComponentType t) = False"
| "json_serializable (PyInstallStatus st) = False"
| "json_serializable v = True"

text \<open>
  \<^verbatim>\<open>with open(path, 'w') as f: json.dump(v, f, indent=2, ensure_ascii=False)\<close>: opening
  the file empties it and the encoder writes piece by piece, so when it raises, the file
  keeps the text written up to there, the beginning of a document.
\<close>

definition json_dump :: "pyval \<Rightarrow> file_content" where
  "json_dump v = (if json_serializable v then Document v else Truncated)"

text \<open>\<^verbatim>\<open>_save_state\<close>. The \<^verbatim>\<open>except Exception\<close> clause logs the error and returns, so the
  caller never sees it.\<close>

definition save_state :: "'w env \<Rightarrow> 'w installer \<Rightarrow> 'w installer" where
  "save_state env s =
     (let state_data =
        PyDict [(''components'', PyDict (map (\<lambda>(k, v). (k, asdict v)) (components s))),
                (''timestamp'', PyFloat (time_time env (world s))),
                (''install_dir'', PyStr (install_dir s))]
      in s\<lparr>files := (files s)(state_file s \<mapsto> json_dump state_data)\<rparr>)"

text \<open>
  The body of the loop of \<^verbatim>\<open>_load_state\<close> for one entry: the enum lookups by value and
  \<^verbatim>\<open>InstallComponent(**component_data)\<close>. \<open>None\<close> stands for an exception: a missing
  \<^verbatim>\<open>type\<close>, \<^verbatim>\<open>status\<close> or \<^verbatim>\<open>name\<close>, a value that names no enum member, a key that is not a
  field. The dataclass does not check the types of its fields; a document that gives a
  string or integer field a value of another kind is outside the record type and is read
  here as a failed load.
\<close>

definition field_names :: "string list" where
  "field_names = [''name'', ''type'', ''status'', ''version'', ''error_msg'', ''rollback_data'',
                  ''retry_count'', ''max_retries'']"

fun required_str :: "pyval option \<Rightarrow> string option" where
  "required_str (Some (PyStr v)) = Some v"
| "required_str _ = None"

fun optional_str :: "string \<Rightarrow> pyval option \<Rightarrow> string option" where
  "optional_str d None = Some d"
| "optional_str d (Some (PyStr v)) = Some v"
| "optional_str d _ = None"

fun optional_int :: "int \<Rightarrow> pyval option \<Rightarrow> int option" where
  "optional_int d None = Some d"
| "optional_int d (Some (PyInt v)) = Some v"
| "optional_int d _ = None"

definition component_of_data :: "pyval \<Rightarrow> InstallComponent option" where
  "component_of_data component_data =
     (case component_data of
        PyDict d \<Rightarrow>
          (case Option.bind (required_str (map_of d ''type'')) ComponentType_of_value of
             None \<Rightarrow> None
           | Some t \<Rightarrow>
          (case Option.bind (required_str (map_of d ''status'')) InstallStatus_of_value of
             None \<Rightarrow> None
           | Some st \<Rightarrow>
          if \<not> list_all (\<lambda>k. k \<in> set field_names) (map fst d) then None
          else
          (case (required_str (map_of d ''name''), optional_str [] (map_of d ''version''),
                 optional_str [] (map_of d ''error_msg''),
                 optional_int 0 (map_of d ''retry_count''),
                 optional_int 3 (map_of d ''max_retries'')) of
             (Some n, Some v, Some e, Some rc, Some mr) \<Rightarrow>
               Some \<lparr>name = n, type = t, status = st, version = v, error_msg = e,
                     rollback_data =
                       (case map_of d ''rollback_data'' of None \<Rightarrow> PyNone | Some x \<Rightarrow> x),
                     retry_count = rc, max_retries = mr\<rparr>
           | _ \<Rightarrow> None)))
      | _ \<Rightarrow> None)"

text \<open>The loop of \<^verbatim>\<open>_load_state\<close> over the entries of the document: an entry whose name is
  not a component is passed over; an exception ends the loop, and the components replaced
  before it stay replaced.\<close>

fun restore_components :: "(string \<times> pyval) list \<Rightarrow> components \<Rightarrow> components" where
  "restore_components [] comps = comps"
| "restore_components ((n, component_data) # rest) comps =
     (if n \<in> set (map fst comps) then
        (case component_of_data component_data of
           None \<Rightarrow> comps
         | Some c \<Rightarrow> restore_components rest (AList.update n c comps))
      else restore_components rest comps)"

text \<open>\<^verbatim>\<open>_load_state\<close>: nothing happens when the file does not exist; when \<^verbatim>\<open>json.load\<close>
  raises, or the document is not an object whose \<^verbatim>\<open>components\<close> is an object, the
  \<^verbatim>\<open>except\<close> clause logs a warning and the components stay as they are.\<close>

definition load_state :: "'w installer \<Rightarrow> 'w installer" where
  "load_state s =
     (case files s (state_file s) of
        None \<Rightarrow> s
      | Some Truncated \<Rightarrow> s
      | Some (Document state_data) \<Rightarrow>
          (case state_data of
             PyDict doc \<Rightarrow>
               (case (case map_of doc ''components'' of None \<Rightarrow> PyDict [] | Some v \<Rightarrow> v) of
                  PyDict entries \<Rightarrow> s\<lparr>components := restore_components entries (components s)\<rparr>
                | _ \<Rightarrow> s)
           | _ \<Rightarrow> s))"

text \<open>The constructor, as far as the orchestrator's state goes: the default components,
  then \<^verbatim>\<open>_load_state\<close>.\<close>

definition Hailo8Installer ::
  "string \<Rightarrow> (string \<Rightarrow> file_content option) \<Rightarrow> 'w \<Rightarrow> 'w installer"
where
  "Hailo8Installer dir fs w =
     load_state \<lparr>install_dir = dir, components = initialize_components, files = fs,
                 world = w, calls = [], commands = [], repaired = [],
                 invocations = []\<rparr>"

subsection \<open>The retry wrapper\<close>

text \<open>An assignment to a field of the object \<^verbatim>\<open>self.components[component_name]\<close>: the
  changed component is stored back under its key.\<close>

definition put_component :: "string \<Rightarrow> InstallComponent \<Rightarrow> 'w installer \<Rightarrow> 'w installer" where
  "put_component component_name component s =
     s\<lparr>components := AList.update component_name component (components s)\<rparr>"

text \<open>\<^verbatim>\<open>str(KeyError(name))\<close>.\<close>

definition key_error :: "string \<Rightarrow> string" where
  "key_error k = [CHR 0x27] @ k @ [CHR 0x27]"

text \<open>
  The \<^verbatim>\<open>while\<close> loop of \<^verbatim>\<open>_retry_operation\<close> and the two statements after it. \<open>component\<close> is
  the local variable of the source, the object stored under \<open>component_name\<close>. Each round
  sets RUNNING, saves, and calls the stage function; \<^verbatim>\<open>True\<close> ends the loop with SUCCESS, a
  cleared error message and a save; \<^verbatim>\<open>False\<close> counts a retry; an exception counts a retry
  and records its text.
\<close>

function retry_loop ::
  "'w env \<Rightarrow> string \<Rightarrow> InstallComponent \<Rightarrow> 'w installer \<Rightarrow> bool \<times> 'w installer"
where
  "retry_loop env component_name component s =
     (if retry_count component < max_retries component then
        (let running = component\<lparr>status := RUNNING\<rparr>;
             s1 = save_state env (put_component component_name running s)
         in case install_func env component_name (world s1) of
              (result, w) \<Rightarrow>
                (let s2 = s1\<lparr>world := w, calls := calls s1 @ [Install component_name],
                            invocations := invocations s1 @
                              [(component_name, statuses s1, repaired s1)]\<rparr>
                 in case result of
                      Returns True \<Rightarrow>
                        (True, save_state env
                           (put_component component_name
                              (running\<lparr>status := SUCCESS, error_msg := []\<rparr>) s2))
                    | Returns False \<Rightarrow>
                        (let c = running\<lparr>retry_count := retry_count running + 1\<rparr>
                         in retry_loop env component_name c (put_component component_name c s2))
                    | Raises e \<Rightarrow>
                        (let c = running\<lparr>retry_count := retry_count running + 1, error_msg := e\<rparr>
                         in retry_loop env component_name c (put_component component_name c s2))))
      else (False, save_state env (put_component component_name (component\<lparr>status := FAILED\<rparr>) s)))"
  by pat_completeness auto
termination
  by (relation "measure (\<lambda>(env, component_name, component, s).
        nat (max_retries component - retry_count component))") auto

definition retry_operation ::
  "'w env \<Rightarrow> string \<Rightarrow> 'w installer \<Rightarrow> bool result \<times> 'w installer"
where
  "retry_operation env component_name s =
     (case map_of (components s) component_name of
        None \<Rightarrow> (Raises (key_error component_name), s)
      | Some component \<Rightarrow>
          (case retry_loop env component_name component s of (b, s') \<Rightarrow> (Returns b, s')))"

subsection \<open>Repair\<close>

definition driver_files :: "string list" where
  "driver_files = [''/lib/modules/$(uname -r)/extra/hailo_pci.ko'',
                   ''/lib/modules/$(uname -r)/kernel/drivers/misc/hailo_pci.ko'']"

text \<open>The \<^verbatim>\<open>for driver_file in driver_files\<close> loop of \<^verbatim>\<open>_load_hailo_driver\<close>.\<close>

fun insmod_loop :: "'w env \<Rightarrow> string list \<Rightarrow> 'w installer \<Rightarrow> bool \<times> 'w installer" where
  "insmod_loop env [] s = (False, s)"
| "insmod_loop env (driver_file # rest) s =
     (case execute_command env [''insmod'', driver_file] 300 True s of
        ((success, out, err), s1) \<Rightarrow> if success then (True, s1) else insmod_loop env rest s1)"

definition load_hailo_driver :: "'w env \<Rightarrow> 'w installer \<Rightarrow> bool \<times> 'w installer" where
  "load_hailo_driver env s =
     (case execute_command env [''modprobe'', ''hailo_pci''] 300 True s of
        ((success, out, err), s1) \<Rightarrow>
          if success then (True, s1) else insmod_loop env driver_files s1)"

definition repair_system_check :: "'w env \<Rightarrow> 'w installer \<Rightarrow> bool result \<times> 'w installer" where
  "repair_system_check env s =
     (Returns True,
      issue env [''apt'', ''install'', ''-y'', ''lsb-release'', ''pciutils'']
        (issue env [''apt'', ''update''] s))"

definition repair_dependencies :: "'w env \<Rightarrow> 'w installer \<Rightarrow> bool result \<times> 'w installer" where
  "repair_dependencies env s =
     (Returns True,
      issue env [''dpkg'', ''--configure'', ''-a'']
        (issue env [''apt'', ''--fix-broken'', ''install'', ''-y''] s))"

definition repair_pcie_driver :: "'w env \<Rightarrow> 'w installer \<Rightarrow> bool result \<times> 'w installer" where
  "repair_pcie_driver env s =
     (case load_hailo_driver env (issue env [''dkms'', ''autoinstall''] s) of
        (b, s') \<Rightarrow> (Returns b, s'))"

text \<open>\<^verbatim>\<open>_repair_hailort\<close> returns \<^verbatim>\<open>self.install_hailort()\<close>: it calls the stage function of
  the component once more, outside the retry wrapper, so an exception of the stage function
  is not caught here.\<close>

definition repair_hailort :: "'w env \<Rightarrow> 'w installer \<Rightarrow> bool result \<times> 'w installer" where
  "repair_hailort env s =
     (case install_func env ''hailort'' (world s) of
        (r, w) \<Rightarrow>
          (r, s\<lparr>world := w, calls := calls s @ [Install ''hailort''],
                 invocations := invocations s @ [(''hailort'', statuses s, repaired s)]\<rparr>))"

definition repair_docker_config :: "'w env \<Rightarrow> 'w installer \<Rightarrow> bool result \<times> 'w installer" where
  "repair_docker_config env s =
     (Returns True, issue env [''systemctl'', ''restart'', ''docker''] s)"

definition repair_validation :: "'w env \<Rightarrow> 'w installer \<Rightarrow> bool result \<times> 'w installer" where
  "repair_validation env s =
     (case load_hailo_driver env (issue env [''rmmod'', ''hailo_pci''] s) of
        (b, s') \<Rightarrow> (Returns b, s'))"

definition repair_strategies ::
  "'w env \<Rightarrow> (string \<times> ('w installer \<Rightarrow> bool result \<times> 'w installer)) list"
where
  "repair_strategies env =
     [(''system_check'', repair_system_check env),
      (''dependencies'', repair_dependencies env),
      (''pcie_driver'', repair_pcie_driver env),
      (''hailort'', repair_hailort env),
      (''docker_config'', repair_docker_config env),
      (''validation'', repair_validation env)]"

text \<open>\<^verbatim>\<open>_attempt_repair\<close>: the lookup of the component, then the repair function that
  \<^verbatim>\<open>repair_strategies.get\<close> finds, or \<^verbatim>\<open>False\<close> when there is none.\<close>

definition attempt_repair ::
  "'w env \<Rightarrow> string \<Rightarrow> 'w installer \<Rightarrow> bool result \<times> 'w installer"
where
  "attempt_repair env component_name s =
     (case map_of (components s) component_name of
        None \<Rightarrow> (Raises (key_error component_name), s)
      | Some component \<Rightarrow>
          (case map_of (repair_strategies env) component_name of
             Some repair_func \<Rightarrow> repair_func (s\<lparr>calls := calls s @ [Repair component_name]\<rparr>)
           | None \<Rightarrow> (Returns False, s)))"

subsection \<open>install\_all and rollback\_installation\<close>

definition install_steps :: "string list" where
  "install_steps = [''system_check'', ''dependencies'', ''pcie_driver'', ''hailort'',
                    ''docker_config'', ''validation'']"

text \<open>The \<^verbatim>\<open>for component_name, install_func in install_steps\<close> loop of \<^verbatim>\<open>install_all\<close>, on
  the steps still to do, and the \<^verbatim>\<open>return True\<close> after it. Where the repair returns
  \<^verbatim>\<open>True\<close> the source logs that the component was repaired and continues with the next
  step; that log line is kept in \<open>repaired\<close>.\<close>

fun install_loop :: "'w env \<Rightarrow> string list \<Rightarrow> 'w installer \<Rightarrow> bool result \<times> 'w installer" where
  "install_loop env [] s = (Returns True, s)"
| "install_loop env (component_name # rest) s =
     (case map_of (components s) component_name of
        None \<Rightarrow> (Raises (key_error component_name), s)
      | Some component \<Rightarrow>
          if status component = SUCCESS then install_loop env rest s
          else
            (case retry_operation env component_name s of
               (Raises e, s1) \<Rightarrow> (Raises e, s1)
             | (Returns True, s1) \<Rightarrow> install_loop env rest s1
             | (Returns False, s1) \<Rightarrow>
                 (case attempt_repair env component_name s1 of
                    (Returns True, s2) \<Rightarrow>
                      install_loop env rest (s2\<lparr>repaired := repaired s2 @ [component_name]\<rparr>)
                  | (Returns False, s2) \<Rightarrow> (Returns False, s2)
                  | (Raises e, s2) \<Rightarrow> (Raises e, s2))))"

definition install_all :: "'w env \<Rightarrow> 'w installer \<Rightarrow> bool result \<times> 'w installer" where
  "install_all env s = install_loop env install_steps s"

text \<open>\<^verbatim>\<open>rollback_installation\<close>: five commands whose results are dropped, the reset of every
  component, one save, \<^verbatim>\<open>return True\<close>.\<close>

definition reset_component :: "InstallComponent \<Rightarrow> InstallComponent" where
  "reset_component component = component\<lparr>status := PENDING, error_msg := [], retry_count := 0\<rparr>"

definition rollback_installation :: "'w env \<Rightarrow> 'w installer \<Rightarrow> bool \<times> 'w installer" where
  "rollback_installation env s =
     (let s1 = issue env [''systemctl'', ''stop'', ''docker''] s;
          s2 = issue env [''rmmod'', ''hailo_pci''] s1;
          s3 = issue env [''dpkg'', ''-r'', ''hailort''] s2;
          s4 = issue env [''dpkg'', ''-r'', ''hailort-pcie-driver''] s3;
          s5 = issue env [''pip3'', ''uninstall'', ''-y'', ''hailort''] s4;
          s6 = s5\<lparr>components :=
                   map (\<lambda>(k, component). (k, reset_component component)) (components s5)\<rparr>
      in (True, save_state env s6))"

text \<open>The status recorded for a component, \<^verbatim>\<open>self.components[name].status\<close>, where the
  component exists.\<close>

definition status_of :: "'w installer \<Rightarrow> string \<Rightarrow> InstallStatus option" where
  "status_of s component_name = map_option status (map_of (components s) component_name)"

text \<open>
  The components that come before \<open>k\<close> in the fixed order, and what the pipeline promises
  about them at a call of the stage function of \<open>k\<close>: each has status SUCCESS or was repaired
  in this run, that is, stands in the log of repairs after its first \<open>n0\<close> entries, those
  of earlier runs.
\<close>

definition earlier :: "string \<Rightarrow> string list" where
  "earlier k = takeWhile (\<lambda>j. j \<noteq> k) install_steps"

definition earlier_done :: "nat \<Rightarrow> invocation \<Rightarrow> bool" where
  "earlier_done n0 entry =
     (case entry of
        (k, sts, rs) \<Rightarrow>
          list_all (\<lambda>j. map_of sts j = Some SUCCESS \<or> j \<in> set (drop n0 rs)) (earlier k))"

subsection \<open>Stand-ins for the environment\<close>

text \<open>
  An environment in the way a test would mock it: the stage functions of the components
  listed in \<open>failing\<close> return \<^verbatim>\<open>False\<close> on every call and the others return \<^verbatim>\<open>True\<close>; every
  child process ends with return code 0 when \<open>commands_succeed\<close>, and with 1 otherwise.
\<close>

definition mock_env :: "string list \<Rightarrow> bool \<Rightarrow> unit env" where
  "mock_env failing commands_succeed =
     \<lparr>subprocess_run = (\<lambda>command timeout capture_output w.
         (CompletedProcess (if commands_succeed then 0 else 1) [] [], w)),
      install_func = (\<lambda>component_name w. (Returns (component_name \<notin> set failing), w)),
      time_time = (\<lambda>w. 0)\<rparr>"

text \<open>An environment in which every child process has the outcome \<open>r\<close>.\<close>

definition process_env :: "proc_result \<Rightarrow> unit env" where
  "process_env r =
     \<lparr>subprocess_run = (\<lambda>command timeout capture_output w. (r, w)),
      install_func = (\<lambda>component_name w. (Returns True, w)),
      time_time = (\<lambda>w. 0)\<rparr>"

text \<open>An orchestrator constructed on an install directory that has no state file yet.\<close>

definition fresh :: "unit installer" where
  "fresh = Hailo8Installer ''/opt/hailo8'' (\<lambda>path. None) ()"

section \<open>Properties\<close>

subsection \<open>What each operation leaves unchanged\<close>

lemma execute_command_frame:
  "components (snd (execute_command env command timeout capture_output s)) = components s"
  "calls (snd (execute_command env command timeout capture_output s)) = calls s"
  "files (snd (execute_command env command timeout capture_output s)) = files s"
  "install_dir (snd (execute_command env command timeout capture_output s)) = install_dir s"
  "commands (snd (execute_command env command timeout capture_output s)) = commands s @ [command]"
  "repaired (snd (execute_command env command timeout capture_output s)) = repaired s"
  by (simp_all add: execute_command_def split: prod.splits)

lemma issue_frame:
  "components (issue env command s) = components s"
  "calls (issue env command s) = calls s"
  "files (issue env command s) = files s"
  "install_dir (issue env command s) = install_dir s"
  "commands (issue env command s) = commands s @ [command]"
  "repaired (issue env command s) = repaired s"
  by (simp_all add: issue_def execute_command_frame)

lemma save_state_frame:
  "components (save_state env s) = components s"
  "calls (save_state env s) = calls s"
  "world (save_state env s) = world s"
  "install_dir (save_state env s) = install_dir s"
  "commands (save_state env s) = commands s"
  "repaired (save_state env s) = repaired s"
  by (simp_all add: save_state_def Let_def)

subsection \<open>Rollback\<close>

lemma rollback_components:
  "components (snd (rollback_installation env s)) =
     map (\<lambda>(k, component). (k, reset_component component)) (components s)"
  by (simp add: rollback_installation_def Let_def save_state_frame issue_frame)

text \<open>
  Claim C8. After \<^verbatim>\<open>rollback_installation\<close>, each of the six components has status
  PENDING, an empty \<^verbatim>\<open>error_msg\<close> and \<^verbatim>\<open>retry_count\<close> 0, whatever the components held
  before and whatever the commands of the rollback did.
\<close>

theorem rollback_resets_every_component:
  assumes "map fst (components s) = install_steps"
  shows "map (\<lambda>(k, c). (k, status c, error_msg c, retry_count c))
           (components (snd (rollback_installation env s))) =
         map (\<lambda>k. (k, PENDING, [], 0)) install_steps"
proof -
  have "map (\<lambda>(k, c). (k, status c, error_msg c, retry_count c))
           (components (snd (rollback_installation env s))) =
        map (\<lambda>k. (k, PENDING, [], 0)) (map fst (components s))"
    by (simp add: rollback_components reset_component_def case_prod_unfold comp_def)
  then show ?thesis using assms by simp
qed

theorem rollback_resets_every_component_witness:
  "map fst (components (snd (install_all (mock_env [''pcie_driver''] True) fresh))) =
     install_steps
   \<and> map (\<lambda>(k, c). (k, status c, retry_count c))
     (components (snd (install_all (mock_env [''pcie_driver''] True) fresh))) =
     [(''system_check'', SUCCESS, 0), (''dependencies'', SUCCESS, 0),
      (''pcie_driver'', FAILED, 3), (''hailort'', SUCCESS, 0),
      (''docker_config'', SUCCESS, 0), (''validation'', SUCCESS, 0)]
   \<and> map (\<lambda>(k, c). (k, status c, error_msg c, retry_count c))
       (components (snd (rollback_installation (mock_env [] False)
          (snd (install_all (mock_env [''pcie_driver''] True) fresh))))) =
     [(''system_check'', PENDING, [], 0), (''dependencies'', PENDING, [], 0),
      (''pcie_driver'', PENDING, [], 0), (''hailort'', PENDING, [], 0),
      (''docker_config'', PENDING, [], 0), (''validation'', PENDING, [], 0)]"
proof -
  have before: "map (\<lambda>(k, c). (k, status c, retry_count c))
     (components (snd (install_all (mock_env [''pcie_driver''] True) fresh))) =
     [(''system_check'', SUCCESS, 0), (''dependencies'', SUCCESS, 0),
      (''pcie_driver'', FAILED, 3), (''hailort'', SUCCESS, 0),
      (''docker_config'', SUCCESS, 0), (''validation'', SUCCESS, 0)]"
    by code_simp
  have "map fst (map (\<lambda>(k, c). (k, status c, retry_count c))
     (components (snd (install_all (mock_env [''pcie_driver''] True) fresh)))) = install_steps"
    unfolding before by (simp add: install_steps_def)
  then have keys: "map fst (components (snd (install_all (mock_env [''pcie_driver''] True) fresh)))
      = install_steps"
    by (simp add: case_prod_unfold comp_def)
  show ?thesis
    using keys before rollback_resets_every_component [OF keys, of "mock_env [] False"]
    by (simp add: install_steps_def)
qed

text \<open>
  Claim C10. \<^verbatim>\<open>rollback_installation\<close> returns \<^verbatim>\<open>True\<close> in every environment, so also when
  each of its commands fails: it issues its five commands in order (stop Docker, remove the
  kernel module, remove the two deb packages, uninstall the pip package) and uses none of
  their results.
\<close>

theorem rollback_installation_returns_True:
  "fst (rollback_installation env s) = True \<and>
   commands (snd (rollback_installation env s)) =
     commands s @ [[''systemctl'', ''stop'', ''docker''], [''rmmod'', ''hailo_pci''],
                   [''dpkg'', ''-r'', ''hailort''], [''dpkg'', ''-r'', ''hailort-pcie-driver''],
                   [''pip3'', ''uninstall'', ''-y'', ''hailort'']]"
  by (simp add: rollback_installation_def Let_def save_state_frame issue_frame)

subsection \<open>The command runner\<close>

text \<open>
  Claim C9, as amended. \<^verbatim>\<open>_execute_command\<close> and \<^verbatim>\<open>DockerHailo8Manager.run_command\<close> turn
  every outcome of \<^verbatim>\<open>subprocess.run\<close> into a triple and raise nothing: a completed child
  gives (return code is 0, captured stdout, captured stderr), so a non-zero exit gives
  \<^verbatim>\<open>False\<close> with what the child wrote; a timeout gives \<^verbatim>\<open>False\<close>, an empty stdout and the
  runner's timeout message in place of stderr; any other exception gives \<^verbatim>\<open>False\<close>, an empty
  stdout and the exception's text in place of stderr. The triple has no field for the kind
  of failure: the result of a timeout, or of an exception, equals the result of a completed
  child exactly when that child ended with a non-zero code, wrote nothing to stdout and
  wrote that very text to stderr.
\<close>

theorem command_runner_results:
  "fst (execute_command env command timeout capture_output s) =
     (case fst (subprocess_run env command timeout capture_output (world s)) of
        CompletedProcess returncode out err \<Rightarrow>
          (returncode = 0, if capture_output then out else [], if capture_output then err else [])
      | TimeoutExpired \<Rightarrow> (False, [], timeout_message)
      | OtherException e \<Rightarrow> (False, [], e))
   \<and> fst (run_command env command timeout w) =
     (case fst (subprocess_run env command timeout True w) of
        CompletedProcess returncode out err \<Rightarrow> (returncode = 0, out, err)
      | TimeoutExpired \<Rightarrow> (False, [], timeout_message)
      | OtherException e \<Rightarrow> (False, [], e))
   \<and> (\<forall>returncode out err.
         fst (subprocess_run env command timeout True (world s)) =
           CompletedProcess returncode out err \<longrightarrow>
         fst (subprocess_run env1 command1 timeout1 True (world s1)) = TimeoutExpired \<longrightarrow>
         (fst (execute_command env command timeout True s) =
            fst (execute_command env1 command1 timeout1 True s1)) =
         (returncode \<noteq> 0 \<and> out = [] \<and> err = timeout_message))
   \<and> (\<forall>returncode out err e.
         fst (subprocess_run env command timeout True (world s)) =
           CompletedProcess returncode out err \<longrightarrow>
         fst (subprocess_run env2 command2 timeout2 True (world s2)) = OtherException e \<longrightarrow>
         (fst (execute_command env command timeout True s) =
            fst (execute_command env2 command2 timeout2 True s2)) =
         (returncode \<noteq> 0 \<and> out = [] \<and> err = e))"
  by (auto simp: execute_command_def run_command_def case_prod_unfold
        split: proc_result.splits)

theorem command_runner_results_witness:
  "fst (subprocess_run (process_env (CompletedProcess 1 ''out'' ''err''))
         [''dpkg'', ''-r'', ''hailort''] 300 True (world fresh)) =
     CompletedProcess 1 ''out'' ''err'' \<and>
   fst (subprocess_run (process_env TimeoutExpired)
         [''dpkg'', ''-r'', ''hailort''] 300 True (world fresh)) = TimeoutExpired \<and>
   fst (subprocess_run (process_env (OtherException ''No such file or directory''))
         [''dpkg'', ''-r'', ''hailort''] 300 True (world fresh)) =
     OtherException ''No such file or directory'' \<and>
   fst (execute_command (process_env (CompletedProcess 1 ''out'' ''err''))
         [''dpkg'', ''-r'', ''hailort''] 300 True fresh) = (False, ''out'', ''err'') \<and>
   fst (execute_command (process_env (CompletedProcess 1 ''out'' ''err''))
         [''dpkg'', ''-r'', ''hailort''] 300 True fresh) \<noteq>
     fst (execute_command (process_env TimeoutExpired)
         [''dpkg'', ''-r'', ''hailort''] 300 True fresh) \<and>
   fst (execute_command (process_env (CompletedProcess 1 ''out'' ''err''))
         [''dpkg'', ''-r'', ''hailort''] 300 True fresh) \<noteq>
     fst (execute_command (process_env (OtherException ''No such file or directory''))
         [''dpkg'', ''-r'', ''hailort''] 300 True fresh)"
proof -
  have a: "fst (subprocess_run (process_env (CompletedProcess 1 ''out'' ''err''))
         [''dpkg'', ''-r'', ''hailort''] 300 True (world fresh)) =
     CompletedProcess 1 ''out'' ''err''"
    by (simp add: process_env_def)
  have b: "fst (subprocess_run (process_env TimeoutExpired)
         [''dpkg'', ''-r'', ''hailort''] 300 True (world fresh)) = TimeoutExpired"
    by (simp add: process_env_def)
  have c: "fst (subprocess_run (process_env (OtherException ''No such file or directory''))
         [''dpkg'', ''-r'', ''hailort''] 300 True (world fresh)) =
     OtherException ''No such file or directory''"
    by (simp add: process_env_def)
  note th = command_runner_results
    [of "process_env (CompletedProcess 1 ''out'' ''err'')" "[''dpkg'', ''-r'', ''hailort'']"
        300 True fresh "()"
        "process_env TimeoutExpired" "[''dpkg'', ''-r'', ''hailort'']" 300 fresh
        "process_env (OtherException ''No such file or directory'')"
        "[''dpkg'', ''-r'', ''hailort'']" 300 fresh]
  have r: "fst (execute_command (process_env (CompletedProcess 1 ''out'' ''err''))
         [''dpkg'', ''-r'', ''hailort''] 300 True fresh) = (False, ''out'', ''err'')"
    using th a by simp
  have d1: "fst (execute_command (process_env (CompletedProcess 1 ''out'' ''err''))
         [''dpkg'', ''-r'', ''hailort''] 300 True fresh) \<noteq>
     fst (execute_command (process_env TimeoutExpired)
         [''dpkg'', ''-r'', ''hailort''] 300 True fresh)"
    using th a b by blast
  have d2: "fst (execute_command (process_env (CompletedProcess 1 ''out'' ''err''))
         [''dpkg'', ''-r'', ''hailort''] 300 True fresh) \<noteq>
     fst (execute_command (process_env (OtherException ''No such file or directory''))
         [''dpkg'', ''-r'', ''hailort''] 300 True fresh)"
    using th a c by blast
  show ?thesis using a b c r d1 d2 by blast
qed

text \<open>
  The claim as first stated, that a timeout or a failure to spawn is reported with a reason
  distinct from an ordinary non-zero exit, fails: a child that ends with code 1, an empty
  stdout and the timeout message on stderr returns the same triple as a timeout, and
  likewise for the text of an exception, in both runners.
\<close>

theorem timeout_same_as_nonzero_exit:
  "fst (execute_command (process_env (CompletedProcess 1 [] timeout_message))
         [''dpkg'', ''-r'', ''hailort''] 300 True fresh) = (False, [], timeout_message) \<and>
   fst (execute_command (process_env TimeoutExpired)
         [''dpkg'', ''-r'', ''hailort''] 300 True fresh) = (False, [], timeout_message) \<and>
   fst (run_command (process_env (CompletedProcess 1 [] timeout_message))
         [''docker'', ''version''] 300 ()) =
     fst (run_command (process_env TimeoutExpired) [''docker'', ''version''] 300 ()) \<and>
   fst (execute_command (process_env (CompletedProcess 1 [] ''No such file or directory''))
         [''dpkg'', ''-r'', ''hailort''] 300 True fresh) =
     fst (execute_command (process_env (OtherException ''No such file or directory''))
         [''dpkg'', ''-r'', ''hailort''] 300 True fresh)"
  by (simp add: execute_command_def run_command_def process_env_def)

subsection \<open>The retry loop, repair and the pipeline\<close>

lemma install_loop_append:
  "install_loop env (pre @ rest) s =
     (case install_loop env pre s of
        (Returns True, s') \<Rightarrow> install_loop env rest s'
      | r \<Rightarrow> r)"
  by (induction pre arbitrary: s)
     (auto split: option.splits prod.splits result.splits bool.splits)

lemma put_component_frame:
  "calls (put_component k c s) = calls s"
  "world (put_component k c s) = world s"
  "repaired (put_component k c s) = repaired s"
  "map_of (components (put_component k c s)) k = Some c"
  by (simp_all add: put_component_def update_conv')

declare retry_loop.simps [simp del]

lemma retry_loop_always_fails:
  "\<forall>w. fst (install_func env k w) \<noteq> Returns True \<Longrightarrow>
         fst (retry_loop env k c s) = False \<and>
         calls (snd (retry_loop env k c s)) =
           calls s @ replicate (nat (max_retries c - retry_count c)) (Install k) \<and>
         (\<exists>c'. map_of (components (snd (retry_loop env k c s))) k = Some c' \<and>
               status c' = FAILED)"
proof (induction env k c s rule: retry_loop.induct)
  case (1 env k c s)
  note fails = "1.prems"
  show ?case
  proof (cases "retry_count c < max_retries c")
    case False
    then show ?thesis
      by (subst (1 2 3) retry_loop.simps)
         (simp add: save_state_frame put_component_frame)
  next
    case True
    define running where "running = c\<lparr>status := RUNNING\<rparr>"
    define s1 where "s1 = save_state env (put_component k running s)"
    obtain result w where r: "install_func env k (world s1) = (result, w)"
      by (cases "install_func env k (world s1)")
    define s2 where "s2 = s1\<lparr>world := w, calls := calls s1 @ [Install k],
      invocations := invocations s1 @ [(k, statuses s1, repaired s1)]\<rparr>"
    have calls2: "calls s2 = calls s @ [Install k]"
      by (simp add: s2_def s1_def save_state_frame put_component_frame)
    have n: "nat (max_retries c - retry_count c) = Suc (nat (max_retries c - (retry_count c + 1)))"
      using True by simp
    from fails [rule_format, of "world s1"] r have ne: "result \<noteq> Returns True" by simp
    show ?thesis
    proof (cases result)
      case (Returns b)
      with ne have b: "b = False" by simp
      define c1 where "c1 = running\<lparr>retry_count := retry_count running + 1\<rparr>"
      have unfold: "retry_loop env k c s = retry_loop env k c1 (put_component k c1 s2)"
        by (subst retry_loop.simps)
           (simp add: True r Returns b Let_def running_def [symmetric] s1_def [symmetric]
              s2_def [symmetric] c1_def [symmetric])
      have ih: "fst (retry_loop env k c1 (put_component k c1 s2)) = False \<and>
         calls (snd (retry_loop env k c1 (put_component k c1 s2))) =
           calls (put_component k c1 s2) @ replicate (nat (max_retries c1 - retry_count c1)) (Install k) \<and>
         (\<exists>c'. map_of (components (snd (retry_loop env k c1 (put_component k c1 s2)))) k = Some c' \<and>
               status c' = FAILED)"
        using "1.IH"(1) [OF True running_def s1_def r [symmetric] s2_def Returns b c1_def fails]
        by simp
      show ?thesis
        unfolding unfold using ih
        by (simp add: put_component_frame calls2 c1_def running_def n replicate_append_same del: replicate_Suc)
           (simp add: replicate_append_same [symmetric])
    next
      case (Raises e)
      define c1 where "c1 = running\<lparr>retry_count := retry_count running + 1, error_msg := e\<rparr>"
      have unfold: "retry_loop env k c s = retry_loop env k c1 (put_component k c1 s2)"
        by (subst retry_loop.simps)
           (simp add: True r Raises Let_def running_def [symmetric] s1_def [symmetric]
              s2_def [symmetric] c1_def [symmetric])
      have ih: "fst (retry_loop env k c1 (put_component k c1 s2)) = False \<and>
         calls (snd (retry_loop env k c1 (put_component k c1 s2))) =
           calls (put_component k c1 s2) @ replicate (nat (max_retries c1 - retry_count c1)) (Install k) \<and>
         (\<exists>c'. map_of (components (snd (retry_loop env k c1 (put_component k c1 s2)))) k = Some c' \<and>
               status c' = FAILED)"
        using "1.IH"(2) [OF True running_def s1_def r [symmetric] s2_def Raises c1_def fails]
        by simp
      show ?thesis
        unfolding unfold using ih
        by (simp add: put_component_frame calls2 c1_def running_def n replicate_append_same del: replicate_Suc)
           (simp add: replicate_append_same [symmetric])
    qed
  qed
qed


lemma execute_command_frameD:
  "execute_command env command timeout capture_output s = (r, s') \<Longrightarrow>
     components s' = components s \<and> calls s' = calls s \<and> repaired s' = repaired s"
  by (auto simp: execute_command_def split: prod.splits)

lemma insmod_loop_frame:
  "components (snd (insmod_loop env fs s)) = components s"
  "calls (snd (insmod_loop env fs s)) = calls s"
  "repaired (snd (insmod_loop env fs s)) = repaired s"
  by (induction fs arbitrary: s)
     (auto split: prod.splits dest!: execute_command_frameD)

lemma load_hailo_driver_frame:
  "components (snd (load_hailo_driver env s)) = components s"
  "calls (snd (load_hailo_driver env s)) = calls s"
  "repaired (snd (load_hailo_driver env s)) = repaired s"
  by (auto simp: load_hailo_driver_def insmod_loop_frame split: prod.splits
        dest!: execute_command_frameD)

lemma repair_frames:
  "components (snd (repair_system_check env s)) = components s"
  "calls (snd (repair_system_check env s)) = calls s"
  "components (snd (repair_dependencies env s)) = components s"
  "calls (snd (repair_dependencies env s)) = calls s"
  "components (snd (repair_pcie_driver env s)) = components s"
  "calls (snd (repair_pcie_driver env s)) = calls s"
  "components (snd (repair_hailort env s)) = components s"
  "calls (snd (repair_hailort env s)) = calls s @ [Install ''hailort'']"
  "components (snd (repair_docker_config env s)) = components s"
  "calls (snd (repair_docker_config env s)) = calls s"
  "components (snd (repair_validation env s)) = components s"
  "calls (snd (repair_validation env s)) = calls s"
  "repaired (snd (repair_system_check env s)) = repaired s"
  "repaired (snd (repair_dependencies env s)) = repaired s"
  "repaired (snd (repair_pcie_driver env s)) = repaired s"
  "repaired (snd (repair_hailort env s)) = repaired s"
  "repaired (snd (repair_docker_config env s)) = repaired s"
  "repaired (snd (repair_validation env s)) = repaired s"
  by (simp_all add: repair_system_check_def repair_dependencies_def repair_pcie_driver_def
        repair_hailort_def repair_docker_config_def repair_validation_def
        issue_frame load_hailo_driver_frame case_prod_unfold)

lemma attempt_repair_frame_all:
  "\<forall>k \<in> set install_steps. map_of (components s) k \<noteq> None \<longrightarrow>
     components (snd (attempt_repair env k s)) = components s \<and>
     repaired (snd (attempt_repair env k s)) = repaired s \<and>
     calls (snd (attempt_repair env k s)) =
       calls s @ [Repair k] @ (if k = ''hailort'' then [Install ''hailort''] else [])"
  unfolding install_steps_def
  by (simp add: attempt_repair_def repair_strategies_def repair_frames split: option.splits)

lemma attempt_repair_frame:
  assumes "k \<in> set install_steps" and "map_of (components s) k = Some c"
  shows "components (snd (attempt_repair env k s)) = components s"
    and "calls (snd (attempt_repair env k s)) =
           calls s @ [Repair k] @ (if k = ''hailort'' then [Install ''hailort''] else [])"
    and "repaired (snd (attempt_repair env k s)) = repaired s"
  using attempt_repair_frame_all [of s env] assms by blast+

lemma retry_operation_always_fails:
  assumes "\<forall>w. fst (install_func env k w) \<noteq> Returns True"
    and "map_of (components s) k = Some c"
  shows "fst (retry_operation env k s) = Returns False"
    and "calls (snd (retry_operation env k s)) =
           calls s @ replicate (nat (max_retries c - retry_count c)) (Install k)"
    and "\<exists>c'. map_of (components (snd (retry_operation env k s))) k = Some c' \<and>
               status c' = FAILED"
  using retry_loop_always_fails [OF assms(1), of c s] assms(2)
  by (simp_all add: retry_operation_def case_prod_unfold)

subsection \<open>What a run of the pipeline has done when it moves on\<close>

lemma put_component_other:
  "j \<noteq> k \<Longrightarrow> map_of (components (put_component k c s)) j = map_of (components s) j"
  by (simp add: put_component_def update_conv')

lemma retry_loop_result:
  "(\<exists>c'. map_of (components (snd (retry_loop env k c s))) k = Some c' \<and>
         status c' = (if fst (retry_loop env k c s) then SUCCESS else FAILED)) \<and>
   (\<forall>j. j \<noteq> k \<longrightarrow>
         map_of (components (snd (retry_loop env k c s))) j = map_of (components s) j) \<and>
   (\<exists>xs. calls (snd (retry_loop env k c s)) = calls s @ xs) \<and>
   repaired (snd (retry_loop env k c s)) = repaired s"
proof (induction env k c s rule: retry_loop.induct)
  case (1 env k c s)
  show ?case
  proof (cases "retry_count c < max_retries c")
    case False
    then show ?thesis
      by (subst (1 2 3 4 5) retry_loop.simps)
         (simp add: save_state_frame put_component_frame put_component_other)
  next
    case True
    note lt = True
    define running where "running = c\<lparr>status := RUNNING\<rparr>"
    define s1 where "s1 = save_state env (put_component k running s)"
    obtain result w where r: "install_func env k (world s1) = (result, w)"
      by (cases "install_func env k (world s1)")
    define s2 where "s2 = s1\<lparr>world := w, calls := calls s1 @ [Install k],
      invocations := invocations s1 @ [(k, statuses s1, repaired s1)]\<rparr>"
    have calls2: "calls s2 = calls s @ [Install k]"
      by (simp add: s2_def s1_def save_state_frame put_component_frame)
    have comps2: "\<And>j. j \<noteq> k \<Longrightarrow> map_of (components s2) j = map_of (components s) j"
      by (simp add: s2_def s1_def save_state_frame put_component_other)
    have rep2: "repaired s2 = repaired s"
      by (simp add: s2_def s1_def save_state_frame put_component_frame)
    show ?thesis
    proof (cases result)
      case (Returns b)
      show ?thesis
      proof (cases b)
        case True
        then have bT: "b = True" by simp
        have unfold: "retry_loop env k c s =
            (True, save_state env (put_component k (running\<lparr>status := SUCCESS, error_msg := []\<rparr>) s2))"
          by (subst retry_loop.simps)
             (simp add: lt r Returns bT Let_def
                running_def [symmetric] s1_def [symmetric] s2_def [symmetric])
        show ?thesis
          unfolding unfold
          by (simp add: save_state_frame put_component_frame put_component_other calls2 comps2
                rep2)
      next
        case False
        then have bF: "b = False" by simp
        define c1 where "c1 = running\<lparr>retry_count := retry_count running + 1\<rparr>"
        have unfold: "retry_loop env k c s = retry_loop env k c1 (put_component k c1 s2)"
          by (subst retry_loop.simps)
             (simp add: lt r Returns bF Let_def
                running_def [symmetric] s1_def [symmetric] s2_def [symmetric] c1_def [symmetric])
        show ?thesis
          unfolding unfold
          using "1.IH"(1) [OF lt running_def s1_def r [symmetric] s2_def Returns bF c1_def]
          by (auto simp: put_component_frame put_component_other calls2 comps2 rep2)
      qed
    next
      case (Raises e)
      define c1 where "c1 = running\<lparr>retry_count := retry_count running + 1, error_msg := e\<rparr>"
      have unfold: "retry_loop env k c s = retry_loop env k c1 (put_component k c1 s2)"
        by (subst retry_loop.simps)
           (simp add: lt r Raises Let_def running_def [symmetric] s1_def [symmetric]
              s2_def [symmetric] c1_def [symmetric])
      show ?thesis
        unfolding unfold
        using "1.IH"(2) [OF lt running_def s1_def r [symmetric] s2_def Raises c1_def]
        by (auto simp: put_component_frame put_component_other calls2 comps2 rep2)
    qed
  qed
qed

lemma retry_operation_result:
  assumes "map_of (components s) k = Some c" and "retry_operation env k s = (r, s1)"
  shows "\<exists>b. r = Returns b \<and> status_of s1 k = Some (if b then SUCCESS else FAILED)"
    and "j \<noteq> k \<Longrightarrow> map_of (components s1) j = map_of (components s) j"
    and "\<exists>xs. calls s1 = calls s @ xs"
    and "repaired s1 = repaired s"
proof -
  have r: "r = Returns (fst (retry_loop env k c s))" and s1: "s1 = snd (retry_loop env k c s)"
    using assms by (auto simp: retry_operation_def case_prod_unfold)
  show "\<exists>b. r = Returns b \<and> status_of s1 k = Some (if b then SUCCESS else FAILED)"
    using retry_loop_result [of env k c s] by (auto simp: r s1 status_of_def)
  show "j \<noteq> k \<Longrightarrow> map_of (components s1) j = map_of (components s) j"
    using retry_loop_result [of env k c s] by (simp add: s1)
  show "\<exists>xs. calls s1 = calls s @ xs"
    using retry_loop_result [of env k c s] by (simp add: s1)
  show "repaired s1 = repaired s"
    using retry_loop_result [of env k c s] by (simp add: s1)
qed


lemma attempt_repair_calls:
  assumes "k \<in> set install_steps"
  shows "\<exists>xs. calls (snd (attempt_repair env k s)) = calls s @ xs"
proof (cases "map_of (components s) k")
  case None
  then show ?thesis by (simp add: attempt_repair_def)
next
  case (Some c)
  from attempt_repair_frame(2) [OF assms Some] show ?thesis by blast
qed

lemma install_loop_calls:
  "set l \<subseteq> set install_steps \<Longrightarrow> \<exists>xs. calls (snd (install_loop env l s)) = calls s @ xs"
proof (induction l arbitrary: s)
  case Nil
  then show ?case by simp
next
  case (Cons k rest)
  then have k: "k \<in> set install_steps" and sub: "set rest \<subseteq> set install_steps" by auto
  note ih = Cons.IH [OF sub]
  show ?case
  proof (cases "map_of (components s) k")
    case None
    then show ?thesis by simp
  next
    case (Some c)
    obtain r s1 where r: "retry_operation env k s = (r, s1)"
      by (cases "retry_operation env k s")
    from retry_operation_result(3) [OF Some r] obtain ys where ys: "calls s1 = calls s @ ys"
      by blast
    obtain r2 s2 where r2: "attempt_repair env k s1 = (r2, s2)"
      by (cases "attempt_repair env k s1")
    from attempt_repair_calls [OF k, of env s1] r2 obtain zs where zs: "calls s2 = calls s1 @ zs"
      by auto
    from ih [of s] obtain x0 where x0: "calls (snd (install_loop env rest s)) = calls s @ x0"
      by blast
    from ih [of s1] obtain x1 where x1: "calls (snd (install_loop env rest s1)) = calls s1 @ x1"
      by blast
    from ih [of "s2\<lparr>repaired := repaired s2 @ [k]\<rparr>"] obtain x2
      where x2: "calls (snd (install_loop env rest (s2\<lparr>repaired := repaired s2 @ [k]\<rparr>))) =
        calls s2 @ x2"
      by auto
    show ?thesis
      using Some r r2 ys zs x0 x1 x2
      by (auto split: result.splits bool.splits)
  qed
qed

lemma retry_loop_first_call:
  assumes "retry_count c < max_retries c"
  shows "\<exists>ys. calls (snd (retry_loop env k c s)) = calls s @ Install k # ys"
proof -
  define running where "running = c\<lparr>status := RUNNING\<rparr>"
  define s1 where "s1 = save_state env (put_component k running s)"
  obtain result w where r: "install_func env k (world s1) = (result, w)"
    by (cases "install_func env k (world s1)")
  define s2 where "s2 = s1\<lparr>world := w, calls := calls s1 @ [Install k],
    invocations := invocations s1 @ [(k, statuses s1, repaired s1)]\<rparr>"
  have calls2: "calls s2 = calls s @ [Install k]"
    by (simp add: s2_def s1_def save_state_frame put_component_frame)
  have "\<exists>c1. retry_loop env k c s =
            (True, save_state env (put_component k (running\<lparr>status := SUCCESS, error_msg := []\<rparr>) s2))
          \<or> retry_loop env k c s = retry_loop env k c1 (put_component k c1 s2)"
    by (subst (1 2) retry_loop.simps)
       (auto simp: assms r Let_def running_def [symmetric] s1_def [symmetric]
          s2_def [symmetric] split: result.splits bool.splits)
  then obtain c1 where "retry_loop env k c s =
            (True, save_state env (put_component k (running\<lparr>status := SUCCESS, error_msg := []\<rparr>) s2))
          \<or> retry_loop env k c s = retry_loop env k c1 (put_component k c1 s2)"
    by blast
  then show ?thesis
  proof
    assume "retry_loop env k c s =
            (True, save_state env (put_component k (running\<lparr>status := SUCCESS, error_msg := []\<rparr>) s2))"
    then show ?thesis by (simp add: save_state_frame put_component_frame calls2)
  next
    assume u: "retry_loop env k c s = retry_loop env k c1 (put_component k c1 s2)"
    from retry_loop_result [of env k c1 "put_component k c1 s2"] obtain xs where
      "calls (snd (retry_loop env k c1 (put_component k c1 s2))) =
         calls (put_component k c1 s2) @ xs"
      by blast
    then show ?thesis by (simp add: u put_component_frame calls2)
  qed
qed

lemma install_loop_first_call:
  assumes "map_of (components s) n = Some cn" and "status cn \<noteq> SUCCESS"
    and "retry_count cn < max_retries cn" and sub: "set (n # rest) \<subseteq> set install_steps"
  shows "\<exists>ys. calls (snd (install_loop env (n # rest) s)) = calls s @ Install n # ys"
proof -
  from sub have n: "n \<in> set install_steps" and sub': "set rest \<subseteq> set install_steps" by auto
  obtain r s1 where r: "retry_operation env n s = (r, s1)"
    by (cases "retry_operation env n s")
  from retry_loop_first_call [OF assms(3), of env n s] r assms(1)
  obtain ys where ys: "calls s1 = calls s @ Install n # ys"
    by (auto simp: retry_operation_def case_prod_unfold)
  obtain r2 s2 where r2: "attempt_repair env n s1 = (r2, s2)"
    by (cases "attempt_repair env n s1")
  from attempt_repair_calls [OF n, of env s1] r2 obtain zs where zs: "calls s2 = calls s1 @ zs"
    by auto
  from install_loop_calls [OF sub', of env s1] obtain x1
    where x1: "calls (snd (install_loop env rest s1)) = calls s1 @ x1" by blast
  from install_loop_calls [OF sub', of env "s2\<lparr>repaired := repaired s2 @ [n]\<rparr>"] obtain x2
    where x2: "calls (snd (install_loop env rest (s2\<lparr>repaired := repaired s2 @ [n]\<rparr>))) =
      calls s2 @ x2" by auto
  show ?thesis
    using assms(1,2) r r2 ys zs x1 x2
    by (auto split: result.splits bool.splits)
qed

subsection \<open>What install\_all guarantees\<close>

lemma distinct_install_steps: "distinct install_steps"
  by (simp add: install_steps_def)

lemma map_of_statuses: "map_of (statuses s) j = status_of s j"
  by (simp add: statuses_def status_of_def map_of_map)

lemma invocations_frame:
  "invocations (snd (execute_command env command timeout capture_output s)) = invocations s"
  "invocations (issue env command s) = invocations s"
  "invocations (save_state env s) = invocations s"
  "invocations (put_component k c s) = invocations s"
  by (simp_all add: execute_command_def issue_def save_state_def put_component_def Let_def
        case_prod_unfold)

lemma status_of_frame:
  "status_of (save_state env s) j = status_of s j"
  "j \<noteq> k \<Longrightarrow> status_of (put_component k c s) j = status_of s j"
  by (simp_all add: status_of_def save_state_frame put_component_other)






lemma retry_loop_log:
  "(\<exists>n. calls (snd (retry_loop env k c s)) = calls s @ replicate n (Install k)) \<and>
   (\<exists>xs. invocations (snd (retry_loop env k c s)) = invocations s @ xs \<and>
      list_all (\<lambda>e. \<exists>sts. e = (k, sts, repaired s) \<and>
                  (\<forall>j. j \<noteq> k \<longrightarrow> map_of sts j = status_of s j)) xs)"
proof (induction env k c s rule: retry_loop.induct)
  case (1 env k c s)
  show ?case
  proof (cases "retry_count c < max_retries c")
    case False
    then show ?thesis
      by (subst (1 2) retry_loop.simps)
         (simp add: save_state_frame put_component_frame invocations_frame)
  next
    case True
    note lt = True
    define running where "running = c\<lparr>status := RUNNING\<rparr>"
    define s1 where "s1 = save_state env (put_component k running s)"
    obtain result w where r: "install_func env k (world s1) = (result, w)"
      by (cases "install_func env k (world s1)")
    define s2 where "s2 = s1\<lparr>world := w, calls := calls s1 @ [Install k],
      invocations := invocations s1 @ [(k, statuses s1, repaired s1)]\<rparr>"
    have calls2: "calls s2 = calls s @ [Install k]"
      by (simp add: s2_def s1_def save_state_frame put_component_frame)
    have rep1: "repaired s1 = repaired s"
      by (simp add: s1_def save_state_frame put_component_frame)
    have rep2: "repaired s2 = repaired s"
      by (simp add: s2_def rep1)
    have st1: "\<And>j. j \<noteq> k \<Longrightarrow> map_of (statuses s1) j = status_of s j"
      by (simp add: map_of_statuses s1_def status_of_frame)
    have st2: "\<And>j. j \<noteq> k \<Longrightarrow> status_of s2 j = status_of s j"
      by (simp add: s2_def s1_def status_of_def save_state_frame put_component_other)
    have inv2: "invocations s2 = invocations s @ [(k, statuses s1, repaired s)]"
      by (simp add: s2_def rep1) (simp add: s1_def invocations_frame)
    have first: "\<exists>sts. (k, statuses s1, repaired s) = (k, sts, repaired s) \<and>
                  (\<forall>j. j \<noteq> k \<longrightarrow> map_of sts j = status_of s j)"
      using st1 by auto
    let ?G = ?thesis
    have stop: "retry_loop env k c s =
            (True, save_state env (put_component k (running\<lparr>status := SUCCESS, error_msg := []\<rparr>) s2))
        \<Longrightarrow> ?G"
    proof -
      assume u: "retry_loop env k c s =
            (True, save_state env (put_component k (running\<lparr>status := SUCCESS, error_msg := []\<rparr>) s2))"
      have "calls (snd (retry_loop env k c s)) = calls s @ replicate 1 (Install k)"
        by (simp add: u save_state_frame put_component_frame calls2)
      moreover have "invocations (snd (retry_loop env k c s)) =
          invocations s @ [(k, statuses s1, repaired s)]"
        by (simp add: u invocations_frame inv2)
      ultimately show ?G using first by (intro conjI exI) (assumption, assumption, simp)
    qed
    have again: "\<And>c1. retry_loop env k c s = retry_loop env k c1 (put_component k c1 s2) \<Longrightarrow>
        (\<exists>n. calls (snd (retry_loop env k c1 (put_component k c1 s2))) =
               calls (put_component k c1 s2) @ replicate n (Install k)) \<and>
        (\<exists>xs. invocations (snd (retry_loop env k c1 (put_component k c1 s2))) =
               invocations (put_component k c1 s2) @ xs \<and>
           list_all (\<lambda>e. \<exists>sts. e = (k, sts, repaired (put_component k c1 s2)) \<and>
                  (\<forall>j. j \<noteq> k \<longrightarrow> map_of sts j = status_of (put_component k c1 s2) j)) xs)
        \<Longrightarrow> ?G"
    proof -
      fix c1
      assume u: "retry_loop env k c s = retry_loop env k c1 (put_component k c1 s2)"
      assume ih: "(\<exists>n. calls (snd (retry_loop env k c1 (put_component k c1 s2))) =
               calls (put_component k c1 s2) @ replicate n (Install k)) \<and>
        (\<exists>xs. invocations (snd (retry_loop env k c1 (put_component k c1 s2))) =
               invocations (put_component k c1 s2) @ xs \<and>
           list_all (\<lambda>e. \<exists>sts. e = (k, sts, repaired (put_component k c1 s2)) \<and>
                  (\<forall>j. j \<noteq> k \<longrightarrow> map_of sts j = status_of (put_component k c1 s2) j)) xs)"
      then obtain n xs where
        n: "calls (snd (retry_loop env k c1 (put_component k c1 s2))) =
               calls (put_component k c1 s2) @ replicate n (Install k)"
        and xs: "invocations (snd (retry_loop env k c1 (put_component k c1 s2))) =
               invocations (put_component k c1 s2) @ xs"
          "list_all (\<lambda>e. \<exists>sts. e = (k, sts, repaired (put_component k c1 s2)) \<and>
                  (\<forall>j. j \<noteq> k \<longrightarrow> map_of sts j = status_of (put_component k c1 s2) j)) xs"
        by blast
      have "calls (snd (retry_loop env k c s)) = calls s @ replicate (Suc n) (Install k)"
        by (simp add: u n put_component_frame calls2)
      moreover have "invocations (snd (retry_loop env k c s)) =
          invocations s @ ((k, statuses s1, repaired s) # xs)"
        by (simp add: u xs(1) invocations_frame inv2)
      moreover have "list_all (\<lambda>e. \<exists>sts. e = (k, sts, repaired s) \<and>
                  (\<forall>j. j \<noteq> k \<longrightarrow> map_of sts j = status_of s j)) ((k, statuses s1, repaired s) # xs)"
        using xs(2) first by (simp add: put_component_frame rep2 status_of_frame st2)
      ultimately show ?G by blast
    qed
    show ?thesis
    proof (cases result)
      case (Returns b)
      show ?thesis
      proof (cases b)
        case True
        then have bT: "b = True" by simp
        have "retry_loop env k c s =
            (True, save_state env (put_component k (running\<lparr>status := SUCCESS, error_msg := []\<rparr>) s2))"
          by (subst retry_loop.simps)
             (simp add: lt r Returns bT Let_def
                running_def [symmetric] s1_def [symmetric] s2_def [symmetric])
        then show ?thesis by (rule stop)
      next
        case False
        then have bF: "b = False" by simp
        define c1 where "c1 = running\<lparr>retry_count := retry_count running + 1\<rparr>"
        have unfold: "retry_loop env k c s = retry_loop env k c1 (put_component k c1 s2)"
          by (subst retry_loop.simps)
             (simp add: lt r Returns bF Let_def
                running_def [symmetric] s1_def [symmetric] s2_def [symmetric] c1_def [symmetric])
        show ?thesis
          using again [OF unfold]
            "1.IH"(1) [OF lt running_def s1_def r [symmetric] s2_def Returns bF c1_def]
          by blast
      qed
    next
      case (Raises e)
      define c1 where "c1 = running\<lparr>retry_count := retry_count running + 1, error_msg := e\<rparr>"
      have unfold: "retry_loop env k c s = retry_loop env k c1 (put_component k c1 s2)"
        by (subst retry_loop.simps)
           (simp add: lt r Raises Let_def running_def [symmetric] s1_def [symmetric]
              s2_def [symmetric] c1_def [symmetric])
      show ?thesis
        using again [OF unfold]
          "1.IH"(2) [OF lt running_def s1_def r [symmetric] s2_def Raises c1_def]
        by blast
    qed
  qed
qed

lemma retry_operation_log:
  assumes "map_of (components s) k = Some c" and "retry_operation env k s = (r, s1)"
  shows "\<exists>n. calls s1 = calls s @ replicate n (Install k)"
    and "\<exists>xs. invocations s1 = invocations s @ xs \<and>
      list_all (\<lambda>e. \<exists>sts. e = (k, sts, repaired s) \<and>
                  (\<forall>j. j \<noteq> k \<longrightarrow> map_of sts j = status_of s j)) xs"
proof -
  have s1: "s1 = snd (retry_loop env k c s)"
    using assms by (auto simp: retry_operation_def case_prod_unfold)
  show "\<exists>n. calls s1 = calls s @ replicate n (Install k)"
    using retry_loop_log [of env k c s] unfolding s1 by blast
  show "\<exists>xs. invocations s1 = invocations s @ xs \<and>
      list_all (\<lambda>e. \<exists>sts. e = (k, sts, repaired s) \<and>
                  (\<forall>j. j \<noteq> k \<longrightarrow> map_of sts j = status_of s j)) xs"
    using retry_loop_log [of env k c s] unfolding s1 by blast
qed

lemma earlier_split:
  assumes "install_steps = pre @ k # rest"
  shows "earlier k = pre" and "k \<notin> set pre" and "k \<notin> set rest" and "k \<in> set install_steps"
proof -
  have d: "distinct (pre @ k # rest)"
    using distinct_install_steps unfolding assms .
  then show "k \<notin> set pre" and "k \<notin> set rest" by auto
  then have "takeWhile (\<lambda>j. j \<noteq> k) (pre @ k # rest) = pre"
    by (subst takeWhile_append2) auto
  then show "earlier k = pre" by (simp add: earlier_def assms)
  show "k \<in> set install_steps" unfolding assms by simp
qed


lemma earlier_done_discriminates:
  "\<not> earlier_done 0 (''validation'', statuses fresh, []) \<and>
   earlier_done 0 (''system_check'', statuses fresh, [])"
  by code_simp

lemma install_loop_call_names:
  "set l \<subseteq> set install_steps \<Longrightarrow>
     \<exists>xs. calls (snd (install_loop env l s)) = calls s @ xs \<and>
          set xs \<subseteq> Install ` set l \<union> Repair ` set l"
proof (induction l arbitrary: s)
  case Nil
  then show ?case by simp
next
  case (Cons k rest)
  then have k: "k \<in> set install_steps" and sub: "set rest \<subseteq> set install_steps" by auto
  have ih: "\<exists>xs. calls (snd (install_loop env rest t)) = calls t @ xs \<and>
          set xs \<subseteq> Install ` set (k # rest) \<union> Repair ` set (k # rest)" for t
    using Cons.IH [OF sub, of t] by auto
  show ?case
  proof (cases "map_of (components s) k")
    case None
    then show ?thesis by simp
  next
    case (Some c)
    obtain r s1 where r: "retry_operation env k s = (r, s1)"
      by (cases "retry_operation env k s")
    from retry_operation_log(1) [OF Some r] obtain n where
      n: "calls s1 = calls s @ replicate n (Install k)" by blast
    from retry_operation_result(1) [OF Some r] obtain c1 where c1: "map_of (components s1) k = Some c1"
      by (auto simp: status_of_def)
    obtain r2 s2 where r2: "attempt_repair env k s1 = (r2, s2)"
      by (cases "attempt_repair env k s1")
    define zs where "zs = replicate n (Install k) @ [Repair k] @
        (if k = ''hailort'' then [Install ''hailort''] else [])"
    have calls2: "calls s2 = calls s @ zs"
      using attempt_repair_frame(2) [OF k c1, of env] r2 n by (simp add: zs_def)
    have zs: "set zs \<subseteq> Install ` set (k # rest) \<union> Repair ` set (k # rest)"
      by (auto simp: zs_def)
    have n': "set (replicate n (Install k)) \<subseteq> Install ` set (k # rest) \<union> Repair ` set (k # rest)"
      by auto
    from ih [of s] obtain x0 where x0: "calls (snd (install_loop env rest s)) = calls s @ x0"
      "set x0 \<subseteq> Install ` set (k # rest) \<union> Repair ` set (k # rest)" by blast
    from ih [of s1] obtain x1 where x1: "calls (snd (install_loop env rest s1)) = calls s1 @ x1"
      "set x1 \<subseteq> Install ` set (k # rest) \<union> Repair ` set (k # rest)" by blast
    from ih [of "s2\<lparr>repaired := repaired s2 @ [k]\<rparr>"] obtain x2
      where x2: "calls (snd (install_loop env rest (s2\<lparr>repaired := repaired s2 @ [k]\<rparr>))) =
        calls s2 @ x2"
      "set x2 \<subseteq> Install ` set (k # rest) \<union> Repair ` set (k # rest)" by auto
    have a0: "\<exists>xs. calls (snd (install_loop env rest s)) = calls s @ xs \<and>
          set xs \<subseteq> Install ` set (k # rest) \<union> Repair ` set (k # rest)"
      using x0 by blast
    have a1: "\<exists>xs. calls (snd (install_loop env rest s1)) = calls s @ xs \<and>
          set xs \<subseteq> Install ` set (k # rest) \<union> Repair ` set (k # rest)"
      using x1 n n' by (intro exI [of _ "replicate n (Install k) @ x1"]) simp
    have a2: "\<exists>xs. calls (snd (install_loop env rest (s2\<lparr>repaired := repaired s2 @ [k]\<rparr>))) =
          calls s @ xs \<and>
          set xs \<subseteq> Install ` set (k # rest) \<union> Repair ` set (k # rest)"
      using x2 calls2 zs by (intro exI [of _ "zs @ x2"]) simp
    have b1: "\<exists>xs. calls s1 = calls s @ xs \<and>
          set xs \<subseteq> Install ` set (k # rest) \<union> Repair ` set (k # rest)"
      using n n' by blast
    have b2: "\<exists>xs. calls s2 = calls s @ xs \<and>
          set xs \<subseteq> Install ` set (k # rest) \<union> Repair ` set (k # rest)"
      using calls2 zs by blast
    show ?thesis
      using Some r r2 a0 a1 a2 b1 b2
      by (simp split: result.splits bool.splits)
  qed
qed







text \<open>A run in which the system check and the HailoRT stage always fail: the component of
  each call, the status of \<^verbatim>\<open>system_check\<close> and the log of repairs at that moment.\<close>

lemma invocations_of_a_run:
  "map (\<lambda>(k, sts, rs). (k, map_of sts ''system_check'', rs))
     (invocations (snd (install_all (mock_env [''system_check'', ''hailort''] True) fresh))) =
     [(''system_check'', Some RUNNING, []), (''system_check'', Some RUNNING, []),
      (''system_check'', Some RUNNING, []),
      (''dependencies'', Some FAILED, [''system_check'']),
      (''pcie_driver'', Some FAILED, [''system_check'']),
      (''hailort'', Some FAILED, [''system_check'']),
      (''hailort'', Some FAILED, [''system_check'']),
      (''hailort'', Some FAILED, [''system_check'']),
      (''hailort'', Some FAILED, [''system_check''])]"
  by code_simp


text \<open>
  Claim C1, as amended. When the loop of \<^verbatim>\<open>install_all\<close> has reached a component \<open>k\<close> that is
  not SUCCESS, the retry wrapper has returned \<^verbatim>\<open>False\<close> for it and its repair function has
  then returned \<^verbatim>\<open>True\<close>, \<^verbatim>\<open>install_all\<close> goes on with the next component \<open>n\<close> of the fixed
  order: when \<open>n\<close> is not SUCCESS and has a retry left, the next call after the repair is the
  stage function of \<open>n\<close>. The witness is the run in which \<^verbatim>\<open>install_pcie_driver\<close> always fails
  and the repair of the driver succeeds: the next call is \<^verbatim>\<open>install_hailort\<close>.
\<close>

theorem repaired_component_proceeds:
  assumes order: "install_steps = pre @ k # n # rest"
    and reached: "install_loop env pre s0 = (Returns True, s)"
    and comp: "map_of (components s) k = Some c" "status c \<noteq> SUCCESS"
    and exhausted: "retry_operation env k s = (Returns False, s1)"
    and repair_ok: "attempt_repair env k s1 = (Returns True, s2)"
    and "next": "map_of (components s2) n = Some cn" "status cn \<noteq> SUCCESS"
       "retry_count cn < max_retries cn"
  shows "install_all env s0 =
           install_loop env (n # rest) (s2\<lparr>repaired := repaired s2 @ [k]\<rparr>) \<and>
         (\<exists>ys. calls (snd (install_all env s0)) = calls s2 @ Install n # ys)"
proof -
  define s3 where "s3 = s2\<lparr>repaired := repaired s2 @ [k]\<rparr>"
  have step: "install_loop env (k # n # rest) s = install_loop env (n # rest) s3"
    by (subst install_loop.simps)
       (simp add: comp exhausted repair_ok s3_def del: install_loop.simps)
  have all: "install_all env s0 = install_loop env (n # rest) s3"
    by (simp add: install_all_def order install_loop_append reached step
          del: install_loop.simps)
  have sub: "set (n # rest) \<subseteq> set install_steps"
    unfolding order by auto
  have next3: "map_of (components s3) n = Some cn" using "next"(1) by (simp add: s3_def)
  from install_loop_first_call [OF next3 "next"(2,3) sub, of env]
  have "\<exists>ys. calls (snd (install_loop env (n # rest) s3)) = calls s2 @ Install n # ys"
    by (simp add: s3_def del: install_loop.simps)
  then show ?thesis
    unfolding all s3_def by blast
qed

theorem repaired_component_proceeds_witness:
  "install_steps = [''system_check'', ''dependencies''] @ ''pcie_driver'' # ''hailort'' #
      [''docker_config'', ''validation''] \<and>
   fst (install_loop (mock_env [''pcie_driver''] True) [''system_check'', ''dependencies'']
         fresh) = Returns True \<and>
   fst (retry_operation (mock_env [''pcie_driver''] True) ''pcie_driver''
         (snd (install_loop (mock_env [''pcie_driver''] True)
            [''system_check'', ''dependencies''] fresh))) = Returns False \<and>
   fst (attempt_repair (mock_env [''pcie_driver''] True) ''pcie_driver''
         (snd (retry_operation (mock_env [''pcie_driver''] True) ''pcie_driver''
           (snd (install_loop (mock_env [''pcie_driver''] True)
              [''system_check'', ''dependencies''] fresh))))) = Returns True \<and>
   (\<exists>ys. calls (snd (install_all (mock_env [''pcie_driver''] True) fresh)) =
      [Install ''system_check'', Install ''dependencies'', Install ''pcie_driver'',
       Install ''pcie_driver'', Install ''pcie_driver'', Repair ''pcie_driver''] @
      Install ''hailort'' # ys)"
proof -
  define env where "env = mock_env [''pcie_driver''] True"
  define s where "s = snd (install_loop env [''system_check'', ''dependencies''] fresh)"
  define s1 where "s1 = snd (retry_operation env ''pcie_driver'' s)"
  define s2 where "s2 = snd (attempt_repair env ''pcie_driver'' s1)"
  have order: "install_steps = [''system_check'', ''dependencies''] @ ''pcie_driver'' #
      ''hailort'' # [''docker_config'', ''validation'']"
    by (simp add: install_steps_def)
  have ok: "fst (install_loop env [''system_check'', ''dependencies''] fresh) = Returns True"
    unfolding env_def by code_simp
  then have reached: "install_loop env [''system_check'', ''dependencies''] fresh =
      (Returns True, s)"
    by (simp add: s_def prod_eq_iff)
  have "map_option status (map_of (components s) ''pcie_driver'') = Some PENDING"
    unfolding s_def env_def by code_simp
  then obtain c where c: "map_of (components s) ''pcie_driver'' = Some c" "status c \<noteq> SUCCESS"
    by auto
  have ex: "fst (retry_operation env ''pcie_driver'' s) = Returns False"
    unfolding s_def env_def by code_simp
  then have exhausted: "retry_operation env ''pcie_driver'' s = (Returns False, s1)"
    by (simp add: s1_def prod_eq_iff)
  have rp: "fst (attempt_repair env ''pcie_driver'' s1) = Returns True"
    unfolding s1_def s_def env_def by code_simp
  then have repair_ok: "attempt_repair env ''pcie_driver'' s1 = (Returns True, s2)"
    by (simp add: s2_def prod_eq_iff)
  have "map_option (\<lambda>c. (status c, retry_count c, max_retries c))
          (map_of (components s2) ''hailort'') = Some (PENDING, 0, 3)"
    unfolding s2_def s1_def s_def env_def by code_simp
  then obtain cn where cn: "map_of (components s2) ''hailort'' = Some cn"
    "status cn \<noteq> SUCCESS" "retry_count cn < max_retries cn"
    by auto
  have calls2: "calls s2 = [Install ''system_check'', Install ''dependencies'',
       Install ''pcie_driver'', Install ''pcie_driver'', Install ''pcie_driver'',
       Repair ''pcie_driver'']"
    unfolding s2_def s1_def s_def env_def by code_simp
  from repaired_component_proceeds [OF order reached c exhausted repair_ok cn]
  have "\<exists>ys. calls (snd (install_all env fresh)) = calls s2 @ Install ''hailort'' # ys"
    by blast
  then have final: "\<exists>ys. calls (snd (install_all env fresh)) =
      [Install ''system_check'', Install ''dependencies'', Install ''pcie_driver'',
       Install ''pcie_driver'', Install ''pcie_driver'', Repair ''pcie_driver''] @
      Install ''hailort'' # ys"
    unfolding calls2 .
  show ?thesis
    using order ok ex rp final unfolding s1_def s_def env_def by blast
qed

text \<open>
  The claim as first stated fails in its other half: in that same run the status recorded
  for \<^verbatim>\<open>pcie_driver\<close> at the end is FAILED, not SUCCESS.
\<close>

theorem repaired_pcie_driver_stays_Failed:
  "fst (install_all (mock_env [''pcie_driver''] True) fresh) = Returns True \<and>
   calls (snd (install_all (mock_env [''pcie_driver''] True) fresh)) =
     [Install ''system_check'', Install ''dependencies'', Install ''pcie_driver'',
      Install ''pcie_driver'', Install ''pcie_driver'', Repair ''pcie_driver'',
      Install ''hailort'', Install ''docker_config'', Install ''validation''] \<and>
   status_of (snd (install_all (mock_env [''pcie_driver''] True) fresh)) ''pcie_driver'' =
     Some FAILED \<and>
   status_of (snd (install_all (mock_env [''pcie_driver''] True) fresh)) ''pcie_driver'' \<noteq>
     Some SUCCESS"
  by code_simp

subsection \<open>A component that always fails\<close>

text \<open>
  Claim C7, as amended. Let the loop of \<^verbatim>\<open>install_all\<close> reach a component \<open>k\<close> that is
  not SUCCESS, has \<^verbatim>\<open>retry_count\<close> 0 and a \<^verbatim>\<open>max_retries\<close> that is not negative, and whose stage
  function fails on every call (returns \<^verbatim>\<open>False\<close> or raises). Then, whatever the repair
  does, the calls of the run are: calls \<open>xs\<close> for the earlier components, exactly
  \<^verbatim>\<open>max_retries\<close> calls of the stage function of \<open>k\<close> by the retry loop, one call of the
  repair function of \<open>k\<close> (for \<^verbatim>\<open>hailort\<close> the repair function is \<^verbatim>\<open>install_hailort\<close> itself,
  so the stage function runs one more time inside it), and calls \<open>ys\<close> for later components;
  neither function of \<open>k\<close> is called among \<open>xs\<close> or \<open>ys\<close>. When the repair returns \<^verbatim>\<open>False\<close>,
  \<open>ys\<close> is empty (no stage or repair function is called after it), \<^verbatim>\<open>install_all\<close> returns
  \<^verbatim>\<open>False\<close> and the component is FAILED.
\<close>

theorem always_failing_component:
  assumes order: "install_steps = pre @ k # rest"
    and reached: "install_loop env pre s0 = (Returns True, s)"
    and comp: "map_of (components s) k = Some c"
    and start: "retry_count c = 0" "0 \<le> max_retries c" "status c \<noteq> SUCCESS"
    and fails: "\<forall>w. fst (install_func env k w) \<noteq> Returns True"
  shows "\<exists>xs ys.
           calls (snd (install_all env s0)) =
             calls s0 @ xs @ replicate (nat (max_retries c)) (Install k) @ [Repair k] @
               (if k = ''hailort'' then [Install k] else []) @ ys \<and>
           Install k \<notin> set xs \<and> Repair k \<notin> set xs \<and>
           Install k \<notin> set ys \<and> Repair k \<notin> set ys \<and>
           (fst (attempt_repair env k (snd (retry_operation env k s))) = Returns False \<longrightarrow>
              ys = [] \<and> fst (install_all env s0) = Returns False \<and>
              (\<exists>c'. map_of (components (snd (install_all env s0))) k = Some c' \<and>
                    status c' = FAILED))"
proof -
  note split = earlier_split [OF order]
  define s1 where "s1 = snd (retry_operation env k s)"
  define r2 where "r2 = fst (attempt_repair env k s1)"
  define s2 where "s2 = snd (attempt_repair env k s1)"
  define s3 where "s3 = s2\<lparr>repaired := repaired s2 @ [k]\<rparr>"
  define mid where "mid = replicate (nat (max_retries c)) (Install k) @ [Repair k] @
               (if k = ''hailort'' then [Install k] else [])"
  have sub_pre: "set pre \<subseteq> set install_steps" and sub_rest: "set rest \<subseteq> set install_steps"
    unfolding order by auto
  from install_loop_call_names [OF sub_pre, of env s0] reached obtain xs where
    xs: "calls s = calls s0 @ xs" "set xs \<subseteq> Install ` set pre \<union> Repair ` set pre"
    by auto
  have xs_k: "Install k \<notin> set xs" "Repair k \<notin> set xs"
    using xs(2) split(2) by auto
  have r1: "retry_operation env k s = (Returns False, s1)"
    using retry_operation_always_fails(1) [OF fails comp]
    by (simp add: s1_def prod_eq_iff)
  have calls1: "calls s1 = calls s @ replicate (nat (max_retries c)) (Install k)"
    using retry_operation_always_fails(2) [OF fails comp] start by (simp add: s1_def)
  obtain c1 where c1: "map_of (components s1) k = Some c1" "status c1 = FAILED"
    using retry_operation_always_fails(3) [OF fails comp] by (auto simp: s1_def)
  have rp: "attempt_repair env k s1 = (r2, s2)"
    by (simp add: r2_def s2_def)
  have comps2: "components s2 = components s1"
    using attempt_repair_frame(1) [OF split(4) c1(1)] by (simp add: s2_def)
  have calls2: "calls s2 = calls s0 @ xs @ mid"
    using attempt_repair_frame(2) [OF split(4) c1(1), of env]
    by (simp add: s2_def calls1 xs(1) mid_def)
  from install_loop_call_names [OF sub_rest, of env s3] obtain ys where
    ys: "calls (snd (install_loop env rest s3)) = calls s3 @ ys"
      "set ys \<subseteq> Install ` set rest \<union> Repair ` set rest"
    by blast
  have ys_k: "Install k \<notin> set ys" "Repair k \<notin> set ys"
    using ys(2) split(3) by auto
  have all: "install_all env s0 = install_loop env (k # rest) s"
    by (simp add: install_all_def order install_loop_append reached del: install_loop.simps)
  have step: "install_loop env (k # rest) s =
      (case r2 of Returns True \<Rightarrow> install_loop env rest s3
                | Returns False \<Rightarrow> (Returns False, s2)
                | Raises e \<Rightarrow> (Raises e, s2))"
    by (simp add: comp start(3) r1 rp s3_def split: result.splits bool.splits)
  show ?thesis
  proof (cases "r2 = Returns True")
    case True
    then have "install_all env s0 = install_loop env rest s3"
      by (simp add: all step del: install_loop.simps)
    moreover have "calls s3 = calls s2" by (simp add: s3_def)
    ultimately have "calls (snd (install_all env s0)) = calls s0 @ xs @ mid @ ys"
      by (simp add: ys(1) calls2)
    moreover have "fst (attempt_repair env k (snd (retry_operation env k s))) \<noteq> Returns False"
      using True by (simp add: r2_def s1_def)
    ultimately show ?thesis
      using xs_k ys_k unfolding mid_def by (intro exI [of _ xs] exI [of _ ys]) simp
  next
    case False
    then have fin: "snd (install_all env s0) = s2" "fst (install_all env s0) = r2"
      by (auto simp: all step simp del: install_loop.simps split: result.splits bool.splits)
    have "calls (snd (install_all env s0)) = calls s0 @ xs @ mid @ []"
      by (simp add: fin calls2)
    moreover have "fst (attempt_repair env k (snd (retry_operation env k s))) = Returns False \<longrightarrow>
        fst (install_all env s0) = Returns False \<and>
        (\<exists>c'. map_of (components (snd (install_all env s0))) k = Some c' \<and> status c' = FAILED)"
      using c1 by (simp add: fin comps2 r2_def s1_def)
    ultimately show ?thesis
      using xs_k unfolding mid_def by (intro exI [of _ xs] exI [of _ "[]"]) simp
  qed
qed

theorem always_failing_component_witness:
  "install_steps =
     [''system_check'', ''dependencies''] @ ''pcie_driver'' #
       [''hailort'', ''docker_config'', ''validation''] \<and>
   fst (install_loop (mock_env [''pcie_driver''] False) [''system_check'', ''dependencies'']
          fresh) = Returns True \<and>
   fst (attempt_repair (mock_env [''pcie_driver''] False) ''pcie_driver''
         (snd (retry_operation (mock_env [''pcie_driver''] False) ''pcie_driver''
           (snd (install_loop (mock_env [''pcie_driver''] False)
              [''system_check'', ''dependencies''] fresh))))) = Returns False \<and>
   fst (install_all (mock_env [''pcie_driver''] False) fresh) = Returns False \<and>
   calls (snd (install_all (mock_env [''pcie_driver''] False) fresh)) =
     [Install ''system_check'', Install ''dependencies'', Install ''pcie_driver'',
      Install ''pcie_driver'', Install ''pcie_driver'', Repair ''pcie_driver'']"
proof -
  define env where "env = mock_env [''pcie_driver''] False"
  define s where "s = snd (install_loop env [''system_check'', ''dependencies''] fresh)"
  have order: "install_steps =
     [''system_check'', ''dependencies''] @ ''pcie_driver'' #
       [''hailort'', ''docker_config'', ''validation'']"
    by (simp add: install_steps_def)
  have ok: "fst (install_loop env [''system_check'', ''dependencies''] fresh) = Returns True"
    unfolding env_def by code_simp
  have reached: "install_loop env [''system_check'', ''dependencies''] fresh = (Returns True, s)"
    using ok by (simp add: s_def prod_eq_iff)
  have "map_option (\<lambda>c. (retry_count c, max_retries c, status c))
          (map_of (components s) ''pcie_driver'') = Some (0, 3, PENDING)"
    unfolding s_def env_def by code_simp
  then obtain c where c: "map_of (components s) ''pcie_driver'' = Some c"
    "retry_count c = 0" "max_retries c = 3" "status c = PENDING"
    by auto
  have c': "0 \<le> max_retries c" "status c \<noteq> SUCCESS" using c by simp_all
  have fails: "\<forall>w. fst (install_func env ''pcie_driver'' w) \<noteq> Returns True"
    by (simp add: env_def mock_env_def)
  have repair: "fst (attempt_repair env ''pcie_driver''
                  (snd (retry_operation env ''pcie_driver'' s))) = Returns False"
    unfolding s_def env_def by code_simp
  have log: "calls (snd (install_all env fresh)) =
     [Install ''system_check'', Install ''dependencies'', Install ''pcie_driver'',
      Install ''pcie_driver'', Install ''pcie_driver'', Repair ''pcie_driver'']"
    unfolding env_def by code_simp
  from always_failing_component [OF order reached c(1) c(2) c' fails] repair
  have "fst (install_all env fresh) = Returns False" by blast
  then show ?thesis
    using order ok repair log unfolding s_def env_def by blast
qed

text \<open>
  The claim as first stated, with the stage function called exactly \<^verbatim>\<open>max_retries\<close> times in
  the run, fails for \<^verbatim>\<open>hailort\<close>: with \<^verbatim>\<open>max_retries\<close> 3 and a stage function that always
  returns \<^verbatim>\<open>False\<close>, \<^verbatim>\<open>install_hailort\<close> is called four times, the fourth time by
  \<^verbatim>\<open>_repair_hailort\<close>.
\<close>

theorem hailort_install_called_four_times:
  "map (\<lambda>(k, c). (k, retry_count c, max_retries c)) (components fresh) =
     [(''system_check'', 0, 3), (''dependencies'', 0, 3), (''pcie_driver'', 0, 3),
      (''hailort'', 0, 3), (''docker_config'', 0, 3), (''validation'', 0, 3)] \<and>
   fst (install_all (mock_env [''hailort''] True) fresh) = Returns False \<and>
   calls (snd (install_all (mock_env [''hailort''] True) fresh)) =
     [Install ''system_check'', Install ''dependencies'', Install ''pcie_driver'',
      Install ''hailort'', Install ''hailort'', Install ''hailort'', Repair ''hailort'',
      Install ''hailort''] \<and>
   count_list (calls (snd (install_all (mock_env [''hailort''] True) fresh)))
     (Install ''hailort'') = 4"
  by code_simp

subsection \<open>Saving and loading the state\<close>

lemma json_dump_components:
  "comps \<noteq> [] \<Longrightarrow>
   json_dump (PyDict [(''components'', PyDict (map (\<lambda>(k, v). (k, asdict v)) comps)),
                      (''timestamp'', t), (''install_dir'', d)]) = Truncated"
  by (cases comps) (auto simp: json_dump_def asdict_def)

lemma save_state_truncated:
  "components s \<noteq> [] \<Longrightarrow> files (save_state env s) (state_file s) = Some Truncated"
  by (simp add: save_state_def Let_def json_dump_components)

text \<open>
  Claim C2. \<^verbatim>\<open>_save_state\<close> is to write the component map as a JSON document after every
  change of status. It is called after each of them, but each entry of the map holds the
  enum members \<^verbatim>\<open>type\<close> and \<^verbatim>\<open>status\<close>, which \<^verbatim>\<open>json.dump\<close> cannot encode: already on a new
  install directory the file is left truncated, and so it is after a complete run.
\<close>

theorem save_state_writes_no_document:
  "state_file fresh = ''/opt/hailo8/install_state.json'' \<and>
   files (save_state (mock_env [] True) fresh) ''/opt/hailo8/install_state.json'' =
     Some Truncated \<and>
   fst (install_all (mock_env [] True) fresh) = Returns True \<and>
   files (snd (install_all (mock_env [] True) fresh)) ''/opt/hailo8/install_state.json'' =
     Some Truncated"
  by code_simp

text \<open>
  Claim C3. A run is stopped after \<^verbatim>\<open>system_check\<close> and \<^verbatim>\<open>dependencies\<close> have reached SUCCESS;
  a new orchestrator on the same directory finds a state file it cannot load, starts with
  every component PENDING, and its \<^verbatim>\<open>install_all\<close> calls the stage functions of the two
  finished components again.
\<close>

theorem restart_runs_finished_components_again:
  "fst (install_loop (mock_env [] True) [''system_check'', ''dependencies''] fresh) =
     Returns True \<and>
   map (\<lambda>(k, c). (k, status c))
     (components (snd (install_loop (mock_env [] True) [''system_check'', ''dependencies'']
        fresh))) =
     [(''system_check'', SUCCESS), (''dependencies'', SUCCESS), (''pcie_driver'', PENDING),
      (''hailort'', PENDING), (''docker_config'', PENDING), (''validation'', PENDING)] \<and>
   map (\<lambda>(k, c). (k, status c))
     (components (Hailo8Installer ''/opt/hailo8''
        (files (snd (install_loop (mock_env [] True) [''system_check'', ''dependencies'']
           fresh))) ())) =
     [(''system_check'', PENDING), (''dependencies'', PENDING), (''pcie_driver'', PENDING),
      (''hailort'', PENDING), (''docker_config'', PENDING), (''validation'', PENDING)] \<and>
   calls (snd (install_all (mock_env [] True)
      (Hailo8Installer ''/opt/hailo8''
        (files (snd (install_loop (mock_env [] True) [''system_check'', ''dependencies'']
           fresh))) ()))) =
     [Install ''system_check'', Install ''dependencies'', Install ''pcie_driver'',
      Install ''hailort'', Install ''docker_config'', Install ''validation'']"
  by code_simp

text \<open>
  Claim C6. Saving the components of a finished run (five SUCCESS, one FAILED with three
  retries counted) and loading them in a new orchestrator gives the default components,
  every status PENDING and every \<^verbatim>\<open>retry_count\<close> 0, not the ones saved.
\<close>

theorem save_then_load_loses_the_state:
  "map (\<lambda>(k, c). (k, status c, retry_count c))
     (components (snd (install_all (mock_env [''pcie_driver''] True) fresh))) =
     [(''system_check'', SUCCESS, 0), (''dependencies'', SUCCESS, 0),
      (''pcie_driver'', FAILED, 3), (''hailort'', SUCCESS, 0),
      (''docker_config'', SUCCESS, 0), (''validation'', SUCCESS, 0)] \<and>
   map (\<lambda>(k, c). (k, status c, retry_count c))
     (components (Hailo8Installer ''/opt/hailo8''
        (files (save_state (mock_env [] True)
           (snd (install_all (mock_env [''pcie_driver''] True) fresh)))) ())) =
     [(''system_check'', PENDING, 0), (''dependencies'', PENDING, 0),
      (''pcie_driver'', PENDING, 0), (''hailort'', PENDING, 0),
      (''docker_config'', PENDING, 0), (''validation'', PENDING, 0)]"
  by code_simp

end
